theory Spec2Isabelle
  imports Main "HOL-Library.Word"
begin

section \<open>Strings\<close>

text \<open>
  A JavaScript string is a sequence of UTF-16 code units; \<open>length\<close>, \<open>slice\<close> and
  \<open>startsWith\<close> count and compare code units. A string is therefore a list of 16-bit
  words, and \<open>str\<close> writes an ASCII literal as such a list.
\<close>

type_synonym jsstring = "16 word list"

definition str :: "string \<Rightarrow> jsstring" where
  "str s = map (\<lambda>c. of_nat (of_char c)) s"

text \<open>\<open>s.startsWith(p)\<close>.\<close>

definition startsWith :: "jsstring \<Rightarrow> jsstring \<Rightarrow> bool" where
  "startsWith s p \<longleftrightarrow> take (length p) s = p"

text \<open>
  \<open>s.slice(a)\<close> and \<open>s.slice(a, b)\<close> for indices that are not negative (the program
  passes lengths and loop counters only): the code units from \<open>a\<close> up to, and not
  including, \<open>b\<close>, both cut at the length of \<open>s\<close>; empty when \<open>b \<le> a\<close>.
\<close>

definition slice_from :: "jsstring \<Rightarrow> nat \<Rightarrow> jsstring" where
  "slice_from s a = drop a s"

definition slice :: "jsstring \<Rightarrow> nat \<Rightarrow> nat \<Rightarrow> jsstring" where
  "slice s a b = take (b - a) (drop a s)"

text \<open>
  The code units \<open>trimStart\<close> removes: ECMAScript's WhiteSpace (TAB, VT, FF, ZWNBSP and
  the Unicode space separators) and LineTerminator (LF, CR, LS, PS). All of them are
  single code units.
\<close>

definition is_whitespace :: "16 word \<Rightarrow> bool" where
  "is_whitespace c \<longleftrightarrow>
     c = 0x0009 \<or> c = 0x000A \<or> c = 0x000B \<or> c = 0x000C \<or> c = 0x000D \<or>
     c = 0x0020 \<or> c = 0x00A0 \<or> c = 0x1680 \<or> (0x2000 \<le> c \<and> c \<le> 0x200A) \<or>
     c = 0x2028 \<or> c = 0x2029 \<or> c = 0x202F \<or> c = 0x205F \<or> c = 0x3000 \<or>
     c = 0xFEFF"

definition trimStart :: "jsstring \<Rightarrow> jsstring" where
  "trimStart s = dropWhile is_whitespace s"

text \<open>\<open>xs.join(sep)\<close> on an array of strings.\<close>

fun join :: "jsstring \<Rightarrow> jsstring list \<Rightarrow> jsstring" where
  "join sep [] = []"
| "join sep [x] = x"
| "join sep (x # y # ys) = x @ sep @ join sep (y # ys)"

section \<open>Messages of the chat gateway\<close>

type_synonym snowflake = jsstring

record attachment =
  att_url :: jsstring
  att_name :: jsstring
  att_contentType :: "jsstring option"

record reference =
  messageId :: "snowflake option"

text \<open>
  The fields of a discord.js \<open>Message\<close> the program reads. \<open>createdAt_iso\<close> is the value
  of \<open>m.createdAt.toISOString()\<close>; \<open>guild_name\<close> is \<open>None\<close> when \<open>m.guild\<close> is null and
  \<open>channel_name\<close> is \<open>None\<close> when \<open>m.channel.isDMBased()\<close>. \<open>content\<close> is a string in
  the type of discord.js, so the \<open>?? ""\<close> of \<open>buildTextFromDiscordMessage\<close> leaves it
  as it is.
\<close>

record message =
  msg_id :: snowflake
  author_id :: snowflake
  author_bot :: bool
  displayName :: jsstring
  content :: jsstring
  createdTimestamp :: int
  createdAt_iso :: jsstring
  attachments :: "attachment list"
  msg_reference :: "reference option"
  guild_name :: "jsstring option"
  channel_name :: "jsstring option"

section \<open>buildTextFromDiscordMessage\<close>

definition buildTextFromDiscordMessage :: "message \<Rightarrow> jsstring \<Rightarrow> jsstring" where
  "buildTextFromDiscordMessage m prefix =
     join (str ''\<newline>'')
       [str ''from: '' @ displayName m,
        str ''time: '' @ createdAt_iso m,
        (if startsWith (content m) prefix
         then trimStart (slice_from (content m) (length prefix))
         else content m)]"

section \<open>Values exchanged with the collaborators\<close>

text \<open>
  A value \<open>JSON.parse\<close> returns. The numbers the tool schema asks for are integers, and
  the model has only those. An object is the list of its properties, each key once.
\<close>

datatype json =
    JNull
  | JBool bool
  | JNum int
  | JStr jsstring
  | JArr "json list"
  | JObj "(jsstring \<times> json) list"

text \<open>
  A thrown value: an instance of \<open>Error\<close> with its \<open>message\<close>, or anything else.
\<close>

datatype exn = JsError jsstring | NonError

datatype content_part =
    InputText jsstring
  | InputImage jsstring jsstring
  | InputFile jsstring

datatype turn_content = Text jsstring | Parts "content_part list"

datatype role = System | User | Assistant

record input_turn =
  turn_role :: role
  turn_content :: turn_content

text \<open>The function tool of the completion request, with the schema of its one parameter.\<close>

record tool =
  tool_name :: jsstring
  tool_description :: jsstring
  limit_description :: jsstring
  limit_minimum :: int
  limit_maximum :: int
  additionalProperties :: bool
  required :: "jsstring list"
  strict :: bool

definition get_messages_tool :: tool where
  "get_messages_tool =
     \<lparr>tool_name = str ''get_messages'',
      tool_description = str ''Fetch more message history from the current channel.'',
      limit_description = str ''The number of messages to fetch, between 1 and 20.'',
      limit_minimum = 1,
      limit_maximum = 20,
      additionalProperties = False,
      required = [str ''limit''],
      strict = True\<rparr>"

text \<open>
  The requests. The selection request always carries the same output format, the
  schema of \<open>modelList\<close>, which is left out. \<open>create_tools\<close> is \<open>None\<close> when the request
  has no \<open>tools\<close> key.
  \<open>fetch_limit\<close> and \<open>fetch_before\<close> are \<open>None\<close> when the value passed is
  \<open>undefined\<close>.
\<close>

record parse_req =
  parse_model :: jsstring
  parse_input :: "input_turn list"

record create_req =
  create_model :: jsstring
  create_input :: "input_turn list"
  create_tools :: "tool list option"

record fetch_req =
  fetch_limit :: "json option"
  fetch_before :: "snowflake option"

text \<open>
  The responses (\<open>output_items\<close> is the \<open>output\<close> of the response). An item is a
  function call with its \<open>name\<close> and \<open>arguments\<close>, or an item of another type.
  \<open>output_parsed_model\<close> is \<open>selectResponse.output_parsed?.model\<close>, \<open>None\<close> when
  \<open>output_parsed\<close> is null.
\<close>

datatype output_item = FunctionCall jsstring jsstring | OtherItem

record response =
  output_items :: "output_item list"
  output_text :: jsstring

record select_response =
  output_parsed_model :: "jsstring option"

text \<open>
  What the program does to its collaborators, in the order it does it: the calls it
  makes, whether they succeed or not. \<open>ResponsesCreate\<close> also records the value of the
  loop counter \<open>attempt\<close> at the call. The typing indicator runs on a timer and is not
  part of the model.
\<close>

datatype action =
    FetchReference
  | FetchText jsstring
  | ResponsesParse parse_req
  | ResponsesCreate nat create_req
  | MessagesFetch fetch_req
  | Reply jsstring
  | Send jsstring

section \<open>The collaborators\<close>

text \<open>
  The chat gateway, the completion service and the runtime are parameters. Their answers
  depend on a state \<open>'w\<close> of the outside world that every call may change, so that the
  same request may be answered differently the next time.

  \<^item> \<open>client_user_id\<close>: \<open>client.user.id\<close>, \<open>None\<close> when \<open>client.user\<close> is null.
  \<^item> \<open>fetchReference\<close>: \<open>message.fetchReference()\<close>, which may throw.
  \<^item> \<open>responses_parse\<close> and \<open>responses_create\<close>: the pair \<open>guard\<close> returns for the call,
    the result and the error; an error is an instance of \<open>Error\<close>, given by its message.
  \<^item> \<open>messages_fetch\<close>: \<open>message.channel.messages.fetch\<close>, the values of the collection
    it returns, in its order; it may throw.
  \<^item> \<open>fetch_text\<close>: \<open>fetch(url).then((res) => res.text())\<close>; \<open>Inl\<close> is the message of
    the \<open>TypeError\<close> it throws.
  \<^item> \<open>message_reply\<close> and \<open>channel_send\<close>: \<open>message.reply\<close> and
    \<open>message.channel.send\<close>, which may throw.
  \<^item> \<open>settled_at\<close>: the time at which the call that brought the world to this state
    settles. Of the calls that are pending together, the one with the smaller time
    settles first.
  \<^item> \<open>JSON_parse\<close>: \<open>Inl\<close> is the message of the \<open>SyntaxError\<close> it throws.
  \<^item> \<open>typeError_message\<close>: the message of the \<open>TypeError\<close> the runtime throws when the
    given expression reads a property of null or undefined.
\<close>

record 'w env =
  client_user_id :: "snowflake option"
  fetchReference :: "'w \<Rightarrow> (exn + message option) \<times> 'w"
  responses_parse :: "parse_req \<Rightarrow> 'w \<Rightarrow> (select_response option \<times> jsstring option) \<times> 'w"
  responses_create :: "create_req \<Rightarrow> 'w \<Rightarrow> (response option \<times> jsstring option) \<times> 'w"
  messages_fetch :: "fetch_req \<Rightarrow> 'w \<Rightarrow> (exn + message list) \<times> 'w"
  fetch_text :: "jsstring \<Rightarrow> 'w \<Rightarrow> (jsstring + jsstring) \<times> 'w"
  message_reply :: "jsstring \<Rightarrow> 'w \<Rightarrow> (exn + unit) \<times> 'w"
  channel_send :: "jsstring \<Rightarrow> 'w \<Rightarrow> (exn + unit) \<times> 'w"
  settled_at :: "'w \<Rightarrow> nat"
  JSON_parse :: "jsstring \<Rightarrow> jsstring + json"
  typeError_message :: "jsstring \<Rightarrow> jsstring"

text \<open>
  A computation takes the state of the world and returns its result (\<open>Inl\<close> when it
  throws), the new state and the actions it performed.
\<close>

type_synonym ('w, 'e, 'a) io = "'w \<Rightarrow> ('e + 'a) \<times> 'w \<times> action list"

text \<open>
  A promise is a computation whose result comes with the time at which it settles. A
  callback that throws before its first \<open>await\<close>, or returns without awaiting a
  collaborator, settles at time 0; one that awaits a call of a collaborator settles
  after that, at \<open>Suc\<close> of the time the world gives for the call.
\<close>

type_synonym ('w, 'e, 'a) promise = "'w \<Rightarrow> (('e + 'a) \<times> nat) \<times> 'w \<times> action list"

text \<open>
  \<open>xs.map(async (x) => ...)\<close>: every callback is started, in the order of the array,
  whether or not another one fails.
\<close>

fun run_all ::
  "('a \<Rightarrow> ('w, 'e, 'b) promise) \<Rightarrow> 'a list \<Rightarrow> 'w
     \<Rightarrow> (('e + 'b) \<times> nat) list \<times> 'w \<times> action list" where
  "run_all f [] w = ([], w, [])"
| "run_all f (x # xs) w =
     (case f x w of (p, w1, t1) \<Rightarrow>
        (case run_all f xs w1 of (ps, w2, t2) \<Rightarrow> (p # ps, w2, t1 @ t2)))"

text \<open>The rejected and the fulfilled among the settled promises, with their times.\<close>

fun rejections :: "(('e + 'b) \<times> nat) list \<Rightarrow> ('e \<times> nat) list" where
  "rejections [] = []"
| "rejections ((Inl e, n) # ps) = (e, n) # rejections ps"
| "rejections ((Inr v, n) # ps) = rejections ps"

fun fulfilled :: "(('e + 'b) \<times> nat) list \<Rightarrow> ('b \<times> nat) list" where
  "fulfilled [] = []"
| "fulfilled ((Inl e, n) # ps) = fulfilled ps"
| "fulfilled ((Inr v, n) # ps) = (v, n) # fulfilled ps"

text \<open>The one with the least time; of several with that time, the first of the list.\<close>

fun earliest :: "('e \<times> nat) list \<Rightarrow> ('e \<times> nat) option" where
  "earliest [] = None"
| "earliest (p # ps) =
     (case earliest ps of
        None \<Rightarrow> Some p
      | Some q \<Rightarrow> if snd p \<le> snd q then Some p else Some q)"

text \<open>
  \<open>Promise.all\<close>: rejected with the rejection that happens first, at its time; when no
  promise is rejected, fulfilled with the results in the order of the array, when the
  last of them is.
\<close>

definition promise_all ::
  "('a \<Rightarrow> ('w, 'e, 'b) promise) \<Rightarrow> 'a list \<Rightarrow> ('w, 'e, 'b list) promise" where
  "promise_all f xs w =
     (case run_all f xs w of (ps, w', t) \<Rightarrow>
        (case earliest (rejections ps) of
           Some (e, n) \<Rightarrow> ((Inl e, n), w', t)
         | None \<Rightarrow> ((Inr (map fst (fulfilled ps)), foldr max (map snd ps) 0), w', t)))"

section \<open>buildPartsFromDiscordMessage\<close>

definition contentType_startsWith :: "attachment \<Rightarrow> jsstring \<Rightarrow> bool" where
  "contentType_startsWith f p =
     (case att_contentType f of None \<Rightarrow> False | Some ct \<Rightarrow> startsWith ct p)"

definition attachment_part ::
  "'w env \<Rightarrow> message \<Rightarrow> attachment \<Rightarrow> ('w, jsstring, content_part) promise" where
  "attachment_part env m f w =
     (if contentType_startsWith f (str ''image/'')
      then ((Inr (InputImage (att_url f) (str ''auto'')), 0), w, [])
      else if contentType_startsWith f (str ''text/'')
      then (case fetch_text env (att_url f) w of
              (Inl e, w') \<Rightarrow> ((Inl e, Suc (settled_at env w')), w', [FetchText (att_url f)])
            | (Inr body, w') \<Rightarrow>
                ((Inr (InputText
                    (join (str ''\<newline>'')
                       [str ''from: '' @ displayName m,
                        str ''time: '' @ createdAt_iso m,
                        str ''filename: '' @ att_name f,
                        str ''content:'',
                        body])),
                  Suc (settled_at env w')),
                 w', [FetchText (att_url f)]))
      else ((Inr (InputFile (att_url f)), 0), w, []))"

definition buildPartsFromDiscordMessage ::
  "'w env \<Rightarrow> message \<Rightarrow> jsstring \<Rightarrow> ('w, jsstring, content_part list) promise" where
  "buildPartsFromDiscordMessage env m prefix w =
     (case promise_all (attachment_part env m) (take 10 (attachments m)) w of
        ((Inl e, n), w', t) \<Rightarrow> ((Inl e, n), w', t)
      | ((Inr ps, n), w', t) \<Rightarrow>
          ((Inr (InputText (buildTextFromDiscordMessage m prefix) # ps), n), w', t))"

section \<open>The handler of MessageCreate\<close>

definition modelList :: "jsstring list" where
  "modelList = [str ''gpt-5-nano'', str ''gpt-5-mini'', str ''gpt-5.2'', str ''gpt-5.1-codex'']"

definition mention_prefix :: "snowflake \<Rightarrow> jsstring" where
  "mention_prefix uid = str ''<@'' @ uid @ str ''>''"

text \<open>
  The condition that lets a message in: its content starts with the prefix, or it has a
  reference and the message referred to is by the bot. The reference is fetched only
  when the content does not start with the prefix.
\<close>

definition addressed :: "'w env \<Rightarrow> message \<Rightarrow> snowflake \<Rightarrow> jsstring \<Rightarrow> ('w, exn, bool) io" where
  "addressed env message me prefix w =
     (if startsWith (content message) prefix then (Inr True, w, [])
      else if msg_reference message = None then (Inr False, w, [])
      else (case fetchReference env w of
              (Inl e, w') \<Rightarrow> (Inl e, w', [FetchReference])
            | (Inr None, w') \<Rightarrow> (Inr False, w', [FetchReference])
            | (Inr (Some r), w') \<Rightarrow> (Inr (author_id r = me), w', [FetchReference])))"

definition prompt_of :: "message \<Rightarrow> jsstring \<Rightarrow> jsstring" where
  "prompt_of message prefix =
     slice_from (content message)
       (if startsWith (content message) prefix then length prefix else 0)"

subsection \<open>Model selection\<close>

definition select_instructions :: jsstring where
  "select_instructions =
     join (str ''\<newline>'')
       [str ''Select the best model for the following conversation from ''
          @ join (str '', '') modelList @ str ''.'',
        str ''Provide only the model name as response.'',
        str ''Select a smaller model for simpler conversations and a larger model for more complex ones.'']"

definition select_req :: "content_part list \<Rightarrow> parse_req" where
  "select_req parts =
     \<lparr>parse_model = str ''gpt-5-nano'',
      parse_input =
        [\<lparr>turn_role = System, turn_content = Text select_instructions\<rparr>,
         \<lparr>turn_role = User, turn_content = Parts parts\<rparr>]\<rparr>"

text \<open>
  The guarded selection call. The parts of the message are built inside the guarded
  function, so a failure to fetch a text attachment is the error of the pair, as \<open>guard\<close>
  returns what its function throws. The call is made once.
\<close>

definition select_call ::
  "'w env \<Rightarrow> message \<Rightarrow> jsstring \<Rightarrow> 'w
     \<Rightarrow> (select_response option \<times> jsstring option) \<times> 'w \<times> action list" where
  "select_call env message prefix w =
     (case buildPartsFromDiscordMessage env message prefix w of
        ((Inl e, n), w1, t1) \<Rightarrow> ((None, Some e), w1, t1)
      | ((Inr parts, n), w1, t1) \<Rightarrow>
          (case responses_parse env (select_req parts) w1 of
             (r, w2) \<Rightarrow> (r, w2, t1 @ [ResponsesParse (select_req parts)])))"

subsection \<open>History\<close>

text \<open>
  \<open>[...].sort((a, b) => a.createdTimestamp - b.createdTimestamp)\<close>: the sort of
  JavaScript is stable, as \<open>sort_key\<close> is.
\<close>

definition sort_by_timestamp :: "message list \<Rightarrow> message list" where
  "sort_by_timestamp ms = sort_key createdTimestamp ms"

definition seed_req :: "message \<Rightarrow> fetch_req" where
  "seed_req message =
     \<lparr>fetch_limit = Some (JNum 5),
      fetch_before =
        (case msg_reference message of
           Some r \<Rightarrow> messageId r
         | None \<Rightarrow> Some (msg_id message))\<rparr>"

text \<open>\<open>JSON.parse(item.arguments).limit\<close>: reading a property of null throws.\<close>

definition parsed_limit :: "'w env \<Rightarrow> jsstring \<Rightarrow> jsstring + json option" where
  "parsed_limit env arguments =
     (case JSON_parse env arguments of
        Inl e \<Rightarrow> Inl e
      | Inr JNull \<Rightarrow> Inl (typeError_message env (str ''JSON.parse(item.arguments).limit''))
      | Inr (JObj props) \<Rightarrow> Inr (map_of props (str ''limit''))
      | Inr _ \<Rightarrow> Inr None)"

text \<open>\<open>history[history.length - 1]?.id\<close>.\<close>

definition last_id :: "message list \<Rightarrow> snowflake option" where
  "last_id history = (if history = [] then None else Some (msg_id (last history)))"

definition is_get_messages :: "output_item \<Rightarrow> bool" where
  "is_get_messages item =
     (case item of
        FunctionCall name arguments \<Rightarrow> name = str ''get_messages''
      | OtherItem \<Rightarrow> False)"

text \<open>
  One callback of the tool-call processing, up to its \<open>await\<close>: the arguments are
  parsed, the anchor is read from \<open>history\<close> and the fetch is started. A failure to
  parse is thrown before the \<open>await\<close>; the answer of the gateway, or its failure,
  comes after. The result is the batch fetched, \<open>None\<close> for an item that is not a call
  of \<open>get_messages\<close>.
\<close>

definition tool_fetch ::
  "'w env \<Rightarrow> message list \<Rightarrow> output_item \<Rightarrow> ('w, exn, message list option) promise" where
  "tool_fetch env history item w =
     (case item of
        FunctionCall name arguments \<Rightarrow>
          (if name = str ''get_messages''
           then (case parsed_limit env arguments of
                   Inl e \<Rightarrow> ((Inl (JsError e), 0), w, [])
                 | Inr lim \<Rightarrow>
                     (let req = \<lparr>fetch_limit = lim, fetch_before = last_id history\<rparr>
                      in case messages_fetch env req w of
                           (Inl e, w') \<Rightarrow>
                             ((Inl e, Suc (settled_at env w')), w', [MessagesFetch req])
                         | (Inr fetched, w') \<Rightarrow>
                             ((Inr (Some fetched), Suc (settled_at env w')), w',
                              [MessagesFetch req])))
           else ((Inr None, 0), w, []))
      | OtherItem \<Rightarrow> ((Inr None, 0), w, []))"

text \<open>\<open>history = [...fetched, ...history].sort(...)\<close>, after the \<open>await\<close>.\<close>

definition merge_history :: "message list \<Rightarrow> message list \<Rightarrow> message list" where
  "merge_history fetched history = sort_by_timestamp (fetched @ history)"

definition merge_batch :: "message list \<Rightarrow> message list option \<Rightarrow> message list" where
  "merge_batch history batch =
     (case batch of None \<Rightarrow> history | Some fetched \<Rightarrow> merge_history fetched history)"

text \<open>
  The processing of the tool calls of one response. Every callback runs up to its
  \<open>await\<close> before any of them goes on, so every fetch is anchored at the history the
  processing started with. When a callback is rejected, the processing is rejected with
  the rejection that happens first. Otherwise each callback merges its batch into the
  history of the moment its fetch settles: the batches are merged in the order of
  their times, those of equal time in the order of the items.
\<close>

definition process_tool_calls ::
  "'w env \<Rightarrow> message list \<Rightarrow> output_item list \<Rightarrow> ('w, exn, message list) io" where
  "process_tool_calls env history items w =
     (case run_all (tool_fetch env history) items w of (ps, w', t) \<Rightarrow>
        (case earliest (rejections ps) of
           Some (e, n) \<Rightarrow> (Inl e, w', t)
         | None \<Rightarrow>
             (Inr (foldl merge_batch history (map fst (sort_key snd (fulfilled ps)))), w', t)))"

subsection \<open>One attempt\<close>

definition build_turn ::
  "'w env \<Rightarrow> snowflake \<Rightarrow> jsstring \<Rightarrow> message \<Rightarrow> ('w, jsstring, input_turn) promise" where
  "build_turn env me prefix m w =
     (if author_id m = me
      then ((Inr \<lparr>turn_role = Assistant,
                  turn_content = Text (buildTextFromDiscordMessage m prefix)\<rparr>, 0), w, [])
      else (case buildPartsFromDiscordMessage env m prefix w of
              ((Inl e, n), w', t) \<Rightarrow> ((Inl e, n), w', t)
            | ((Inr ps, n), w', t) \<Rightarrow>
                ((Inr \<lparr>turn_role = User, turn_content = Parts ps\<rparr>, n), w', t)))"

definition build_input ::
  "'w env \<Rightarrow> snowflake \<Rightarrow> jsstring \<Rightarrow> message list \<Rightarrow> ('w, jsstring, input_turn list) io" where
  "build_input env me prefix history w =
     (case promise_all (build_turn env me prefix) history w of
        ((r, n), w', t) \<Rightarrow> (r, w', t))"

definition system_preamble :: "message \<Rightarrow> jsstring" where
  "system_preamble message =
     join (str ''\<newline>'')
       [str ''You are a Discord assistant. You will be given only the last few messages.'',
        str ''If the context is insufficient, use the tool `get_messages` to fetch more history before answering.'',
        str ''Fetch the minimum amount needed.'',
        [],
        str ''guild_name: ''
          @ (case guild_name message of Some g \<Rightarrow> g | None \<Rightarrow> str ''Direct Message''),
        str ''channel_name: ''
          @ (case channel_name message of Some c \<Rightarrow> c | None \<Rightarrow> str ''Direct Message'')]"

definition create_req_of :: "message \<Rightarrow> select_response \<Rightarrow> nat \<Rightarrow> input_turn list \<Rightarrow> create_req" where
  "create_req_of message selectResponse attempt input =
     \<lparr>create_model =
        (case output_parsed_model selectResponse of Some m \<Rightarrow> m | None \<Rightarrow> modelList ! 0),
      create_input =
        \<lparr>turn_role = System, turn_content = Text (system_preamble message)\<rparr> # input,
      create_tools = (if attempt < 2 then Some [get_messages_tool] else None)\<rparr>"

text \<open>
  The loop that sends the answer: \<open>for (let i = 0; i < text.length; i += 2000)\<close>, a reply
  when \<open>i\<close> is 0 and a message to the channel otherwise. \<open>dispatch_from\<close> is the calls
  the loop makes, in their order, as long as none of them is rejected; \<open>send_each\<close>
  below makes them.
\<close>

function dispatch_from :: "jsstring \<Rightarrow> nat \<Rightarrow> action list" where
  "dispatch_from text i =
     (if i < length text
      then (if i = 0 then Reply (slice text i (i + 2000)) else Send (slice text i (i + 2000)))
             # dispatch_from text (i + 2000)
      else [])"
  by pat_completeness auto
termination
  by (relation "measure (\<lambda>(text, i). length text - i)") auto

declare dispatch_from.simps [simp del]

text \<open>
  One awaited call of \<open>message.reply\<close> or \<open>message.channel.send\<close>; no other action is
  a call of these.
\<close>

fun perform :: "'w env \<Rightarrow> action \<Rightarrow> 'w \<Rightarrow> (exn + unit) \<times> 'w" where
  "perform env (Reply c) w = message_reply env c w"
| "perform env (Send c) w = channel_send env c w"
| "perform env a w = (Inr (), w)"

text \<open>
  The calls are made one after the other, each awaited before the next; the first that
  is rejected throws, and the calls after it are not made.
\<close>

fun send_each :: "'w env \<Rightarrow> action list \<Rightarrow> ('w, exn, unit) io" where
  "send_each env [] w = (Inr (), w, [])"
| "send_each env (a # as) w =
     (case perform env a w of
        (Inl e, w') \<Rightarrow> (Inl e, w', [a])
      | (Inr u, w') \<Rightarrow>
          (case send_each env as w' of (r, w'', t) \<Rightarrow> (r, w'', a # t)))"

text \<open>
  The body of the loop over \<open>attempt\<close>. Its result is \<open>None\<close> when the handler returns
  from inside the loop (the answer or the error of the completion call has been sent)
  and the new history when the loop goes on.
\<close>

definition attempt_body ::
  "'w env \<Rightarrow> message \<Rightarrow> snowflake \<Rightarrow> jsstring \<Rightarrow> select_response \<Rightarrow> nat \<Rightarrow> message list
     \<Rightarrow> ('w, exn, message list option) io" where
  "attempt_body env message me prefix selectResponse attempt history w =
     (case build_input env me prefix history w of
        (Inl e, w1, t1) \<Rightarrow> (Inl (JsError e), w1, t1)
      | (Inr input, w1, t1) \<Rightarrow>
          (let req = create_req_of message selectResponse attempt input
           in case responses_create env req w1 of
                ((response, Some e), w2) \<Rightarrow>
                  (case send_each env [Reply e] w2 of
                     (Inl x, w3, t3) \<Rightarrow> (Inl x, w3, t1 @ [ResponsesCreate attempt req] @ t3)
                   | (Inr u, w3, t3) \<Rightarrow>
                       (Inr None, w3, t1 @ [ResponsesCreate attempt req] @ t3))
              | ((None, None), w2) \<Rightarrow>
                  (Inl (JsError (typeError_message env (str ''error.message''))), w2,
                   t1 @ [ResponsesCreate attempt req])
              | ((Some response, None), w2) \<Rightarrow>
                  (if \<not> list_ex is_get_messages (output_items response)
                   then (case send_each env (dispatch_from (output_text response) 0) w2 of
                           (Inl x, w3, t3) \<Rightarrow>
                             (Inl x, w3, t1 @ [ResponsesCreate attempt req] @ t3)
                         | (Inr u, w3, t3) \<Rightarrow>
                             (Inr None, w3, t1 @ [ResponsesCreate attempt req] @ t3))
                   else (case process_tool_calls env history (output_items response) w2 of
                           (Inl e, w3, t3) \<Rightarrow>
                             (Inl e, w3, t1 @ [ResponsesCreate attempt req] @ t3)
                         | (Inr history', w3, t3) \<Rightarrow>
                             (Inr (Some history'), w3,
                              t1 @ [ResponsesCreate attempt req] @ t3)))))"

subsection \<open>The loop and the handler\<close>

text \<open>\<open>for (let attempt = 0; attempt <= 2; attempt++)\<close>, from a value of \<open>attempt\<close> on.\<close>

function attempts ::
  "'w env \<Rightarrow> message \<Rightarrow> snowflake \<Rightarrow> jsstring \<Rightarrow> select_response \<Rightarrow> nat \<Rightarrow> message list
     \<Rightarrow> ('w, exn, unit) io" where
  "attempts env message me prefix selectResponse attempt history w =
     (if attempt \<le> 2
      then (case attempt_body env message me prefix selectResponse attempt history w of
              (Inl e, w', t) \<Rightarrow> (Inl e, w', t)
            | (Inr None, w', t) \<Rightarrow> (Inr (), w', t)
            | (Inr (Some history'), w', t) \<Rightarrow>
                (case attempts env message me prefix selectResponse (attempt + 1) history' w' of
                   (r, w'', t') \<Rightarrow> (r, w'', t @ t')))
      else (Inr (), w, []))"
  by pat_completeness auto
termination
  by (relation "measure (\<lambda>(env, message, me, prefix, selectResponse, attempt, history, w).
        3 - attempt)") auto

declare attempts.simps [simp del]

text \<open>The body of the \<open>try\<close> block.\<close>

definition try_body :: "'w env \<Rightarrow> message \<Rightarrow> snowflake \<Rightarrow> jsstring \<Rightarrow> ('w, exn, unit) io" where
  "try_body env message me prefix w =
     (if length (prompt_of message prefix) = 0 then (Inr (), w, [])
      else (case select_call env message prefix w of
              ((selectResponse, Some e), w1, t1) \<Rightarrow>
                (case send_each env [Reply e] w1 of (r, w2, t2) \<Rightarrow> (r, w2, t1 @ t2))
            | ((None, None), w1, t1) \<Rightarrow>
                (Inl (JsError (typeError_message env (str ''selectError.message''))), w1, t1)
            | ((Some selectResponse, None), w1, t1) \<Rightarrow>
                (case messages_fetch env (seed_req message) w1 of
                   (Inl e, w2) \<Rightarrow> (Inl e, w2, t1 @ [MessagesFetch (seed_req message)])
                 | (Inr fetched, w2) \<Rightarrow>
                     (case attempts env message me prefix selectResponse 0
                             (sort_by_timestamp (message # fetched)) w2 of
                        (r, w3, t3) \<Rightarrow>
                          (r, w3, t1 @ [MessagesFetch (seed_req message)] @ t3)))))"

text \<open>
  The \<open>catch\<close> block: \<open>err instanceof Error ? err.message : "An unexpected error occurred."\<close>
\<close>

definition catch_text :: "exn \<Rightarrow> jsstring" where
  "catch_text err =
     (case err of JsError m \<Rightarrow> m | NonError \<Rightarrow> str ''An unexpected error occurred.'')"

text \<open>
  The handler. \<open>Inl\<close> is an exception that leaves the handler: the reference is fetched
  before the \<open>try\<close> block is entered, and the reply of the \<open>catch\<close> block is not
  guarded either.
\<close>

definition MessageCreate :: "'w env \<Rightarrow> message \<Rightarrow> ('w, exn, unit) io" where
  "MessageCreate env message w =
     (if author_bot message then (Inr (), w, [])
      else (case client_user_id env of
              None \<Rightarrow> (Inr (), w, [])
            | Some me \<Rightarrow>
                (case addressed env message me (mention_prefix me) w of
                   (Inl e, w1, t1) \<Rightarrow> (Inl e, w1, t1)
                 | (Inr False, w1, t1) \<Rightarrow> (Inr (), w1, t1)
                 | (Inr True, w1, t1) \<Rightarrow>
                     (case try_body env message me (mention_prefix me) w1 of
                        (Inl err, w2, t2) \<Rightarrow>
                          (case send_each env [Reply (catch_text err)] w2 of
                             (r, w3, t3) \<Rightarrow> (r, w3, t1 @ t2 @ t3))
                      | (Inr u, w2, t2) \<Rightarrow> (Inr (), w2, t1 @ t2)))))"

section \<open>Observations on the actions\<close>


text \<open>The actions that are calls of \<open>message.reply\<close> or \<open>message.channel.send\<close>.\<close>

fun is_sent :: "action \<Rightarrow> bool" where
  "is_sent (Reply c) = True"
| "is_sent (Send c) = True"
| "is_sent a = False"

text \<open>The completion calls among the actions, each with the value of \<open>attempt\<close>.\<close>

fun create_calls :: "action list \<Rightarrow> (nat \<times> create_req) list" where
  "create_calls [] = []"
| "create_calls (ResponsesCreate n req # as) = (n, req) # create_calls as"
| "create_calls (a # as) = create_calls as"

text \<open>The selection calls among the actions.\<close>

fun parse_calls :: "action list \<Rightarrow> parse_req list" where
  "parse_calls [] = []"
| "parse_calls (ResponsesParse req # as) = req # parse_calls as"
| "parse_calls (a # as) = parse_calls as"

text \<open>The fetches from the channel among the actions.\<close>

fun fetch_calls :: "action list \<Rightarrow> fetch_req list" where
  "fetch_calls [] = []"
| "fetch_calls (MessagesFetch req # as) = req # fetch_calls as"
| "fetch_calls (a # as) = fetch_calls as"

text \<open>
  The actions that only read: the fetch of the reference, of a text attachment and of
  messages of the channel.
\<close>

fun is_read :: "action \<Rightarrow> bool" where
  "is_read FetchReference = True"
| "is_read (FetchText u) = True"
| "is_read (MessagesFetch req) = True"
| "is_read a = False"

section \<open>Collaborators for the examples\<close>

text \<open>
  The examples run the handler for the bot with the id \<open>1\<close> against a channel given as
  the list of its messages, the oldest first. \<open>channel_fetch\<close> answers as the gateway
  does: the messages before the anchor, the newest first, at most \<open>limit\<close> of them (50
  when the limit is not a number). Every reply and every message is accepted, and all
  calls that are pending together settle at the same time.
\<close>

definition example_message :: "string \<Rightarrow> string \<Rightarrow> string \<Rightarrow> int \<Rightarrow> message" where
  "example_message mid author body ts =
     \<lparr>msg_id = str mid, author_id = str author, author_bot = False,
      displayName = str author, content = str body, createdTimestamp = ts,
      createdAt_iso = str ''T'', attachments = [], msg_reference = None,
      guild_name = None, channel_name = None\<rparr>"

definition channel_fetch :: "message list \<Rightarrow> fetch_req \<Rightarrow> message list" where
  "channel_fetch chan req =
     take (case fetch_limit req of Some (JNum n) \<Rightarrow> nat n | _ \<Rightarrow> 50)
       (rev (case fetch_before req of
               None \<Rightarrow> chan
             | Some b \<Rightarrow> takeWhile (\<lambda>m. msg_id m \<noteq> b) chan))"

text \<open>The arguments \<open>{"limit":N}\<close> of a tool call, and a parser that knows two of them.\<close>

definition limit_arguments :: "string \<Rightarrow> jsstring" where
  "limit_arguments digits =
     str ''{'' @ [0x22] @ str ''limit'' @ [0x22] @ str '':'' @ str digits @ str ''}''"

definition example_JSON_parse :: "jsstring \<Rightarrow> jsstring + json" where
  "example_JSON_parse s =
     (if s = limit_arguments ''1'' then Inr (JObj [(str ''limit'', JNum 1)])
      else if s = limit_arguments ''1000'' then Inr (JObj [(str ''limit'', JNum 1000)])
      else Inl (str ''JSON Parse error''))"

definition example_env ::
  "message list \<Rightarrow> select_response option \<times> jsstring option
     \<Rightarrow> (create_req \<Rightarrow> response option \<times> jsstring option) \<Rightarrow> unit env" where
  "example_env chan sel cr =
     \<lparr>client_user_id = Some (str ''1''),
      fetchReference = (\<lambda>w. (Inr None, w)),
      responses_parse = (\<lambda>req w. (sel, w)),
      responses_create = (\<lambda>req w. (cr req, w)),
      messages_fetch = (\<lambda>req w. (Inr (channel_fetch chan req), w)),
      fetch_text = (\<lambda>url w. (Inr [], w)),
      message_reply = (\<lambda>c w. (Inr (), w)),
      channel_send = (\<lambda>c w. (Inr (), w)),
      settled_at = (\<lambda>w. 0),
      JSON_parse = example_JSON_parse,
      typeError_message = (\<lambda>e. str ''TypeError: '' @ e)\<rparr>"

text \<open>
  Two completion services: one answers with a text, the other asks for more history
  whenever the tool is offered and answers \<open>done\<close> when it is not.
\<close>

definition answer_with :: "jsstring \<Rightarrow> create_req \<Rightarrow> response option \<times> jsstring option" where
  "answer_with s req = (Some \<lparr>output_items = [OtherItem], output_text = s\<rparr>, None)"

definition ask_history :: "jsstring \<Rightarrow> create_req \<Rightarrow> response option \<times> jsstring option" where
  "ask_history arguments req =
     (if create_tools req \<noteq> None
      then (Some \<lparr>output_items = [FunctionCall (str ''get_messages'') arguments],
                  output_text = []\<rparr>, None)
      else (Some \<lparr>output_items = [OtherItem], output_text = str ''done''\<rparr>, None))"

text \<open>A channel of eight messages; the last one mentions the bot.\<close>

definition example_channel :: "message list" where
  "example_channel =
     [example_message ''10'' ''u'' ''a'' 10, example_message ''20'' ''v'' ''b'' 20,
      example_message ''30'' ''u'' ''c'' 30, example_message ''40'' ''v'' ''d'' 40,
      example_message ''50'' ''u'' ''e'' 50, example_message ''60'' ''v'' ''f'' 60,
      example_message ''70'' ''u'' ''g'' 70, example_message ''80'' ''u'' ''<@1> hi'' 80]"

definition trigger :: message where
  "trigger = example_message ''80'' ''u'' ''<@1> hi'' 80"

definition selected :: "select_response option \<times> jsstring option" where
  "selected = (Some \<lparr>output_parsed_model = Some (str ''gpt-5-mini'')\<rparr>, None)"

text \<open>The collaborators of the examples, over the example channel.\<close>

definition env_ask :: "unit env" where
  "env_ask = example_env example_channel selected (ask_history (limit_arguments ''1''))"

definition env_answer :: "unit env" where
  "env_answer = example_env example_channel selected (answer_with (str ''hello''))"

definition env_select_error :: "unit env" where
  "env_select_error =
     example_env example_channel (None, Some (str ''The model is overloaded.''))
       (answer_with (str ''hello''))"

definition env_unparsed :: "unit env" where
  "env_unparsed =
     example_env example_channel (Some \<lparr>output_parsed_model = None\<rparr>, None)
       (answer_with (str ''hello''))"

definition env_bad_arguments :: "unit env" where
  "env_bad_arguments = example_env example_channel selected (ask_history (str ''oops''))"

definition env_far :: "unit env" where
  "env_far = example_env example_channel selected (ask_history (limit_arguments ''1000''))"

definition env_empty_answer :: "unit env" where
  "env_empty_answer = example_env example_channel selected (answer_with [])"

definition env_gateway_down :: "unit env" where
  "env_gateway_down = env_answer\<lparr>messages_fetch := (\<lambda>req w. (Inl NonError, w))\<rparr>"

text \<open>
  A service whose answer has 2001 code units, over a channel that accepts the reply and
  rejects every other message.
\<close>

definition env_send_fails :: "unit env" where
  "env_send_fails =
     (example_env example_channel selected (answer_with (replicate 2001 97)))
       \<lparr>channel_send := (\<lambda>c w. (Inl (JsError (str ''Missing Permissions'')), w))\<rparr>"

text \<open>
  A service that answers with two calls of \<open>get_messages\<close>, the first with arguments that
  parse and the second with arguments that do not, over a gateway that fetches the five
  messages of the start and rejects every other fetch.
\<close>

definition ask_twice :: "create_req \<Rightarrow> response option \<times> jsstring option" where
  "ask_twice req =
     (Some \<lparr>output_items =
              [FunctionCall (str ''get_messages'') (limit_arguments ''1''),
               FunctionCall (str ''get_messages'') (str ''oops'')],
           output_text = []\<rparr>, None)"

definition env_race :: "unit env" where
  "env_race =
     (example_env example_channel selected ask_twice)
       \<lparr>messages_fetch :=
          (\<lambda>req w. if fetch_limit req = Some (JNum 5)
                    then (Inr (channel_fetch example_channel req), w)
                    else (Inl (JsError (str ''Missing Access'')), w))\<rparr>"

text \<open>
  A mention with nothing after it, a mention followed by one space, and a message that
  quotes the mention in its middle.
\<close>

definition bare_mention :: message where
  "bare_mention = example_message ''80'' ''u'' ''<@1>'' 80"

definition blank_mention :: message where
  "blank_mention = example_message ''80'' ''u'' ''<@1> '' 80"

definition quoting :: message where
  "quoting = example_message ''90'' ''v'' ''ask <@1> about it'' 90"

lemmas handler_defs =
  MessageCreate_def addressed_def try_body_def prompt_of_def select_call_def
  buildPartsFromDiscordMessage_def attempt_body_def build_input_def build_turn_def
  promise_all_def process_tool_calls_def tool_fetch_def parsed_limit_def last_id_def merge_batch_def
  merge_history_def sort_by_timestamp_def seed_req_def create_req_of_def is_get_messages_def
  mention_prefix_def startsWith_def slice_from_def slice_def str_def catch_text_def
  attempts.simps dispatch_from.simps

lemmas example_defs =
  example_env_def example_message_def channel_fetch_def limit_arguments_def
  example_JSON_parse_def answer_with_def ask_history_def example_channel_def trigger_def
  selected_def env_ask_def env_answer_def env_select_error_def env_unparsed_def
  env_bad_arguments_def env_far_def env_empty_answer_def env_gateway_down_def
  env_send_fails_def ask_twice_def env_race_def
  bare_mention_def blank_mention_def quoting_def


section \<open>The reply is sent in chunks\<close>








section \<open>The actions of the handler\<close>

lemma create_calls_append: "create_calls (t1 @ t2) = create_calls t1 @ create_calls t2"
  by (induction t1 rule: create_calls.induct) simp_all

lemma parse_calls_append: "parse_calls (t1 @ t2) = parse_calls t1 @ parse_calls t2"
  by (induction t1 rule: parse_calls.induct) simp_all

lemma reads_quiet:
  "list_all is_read t \<Longrightarrow> create_calls t = [] \<and> parse_calls t = [] \<and> filter is_sent t = []"
proof (induction t)
  case Nil
  show ?case by simp
next
  case (Cons a t)
  then show ?case by (cases a) simp_all
qed

lemma sent_quiet:
  "list_all is_sent t \<Longrightarrow> create_calls t = [] \<and> parse_calls t = []"
proof (induction t)
  case Nil
  show ?case by simp
next
  case (Cons a t)
  then show ?case by (cases a) simp_all
qed

lemma run_all_reads:
  assumes f: "\<And>x w p w' t. f x w = (p, w', t) \<Longrightarrow> list_all is_read t"
  shows "run_all f xs w = (ps, w', t) \<Longrightarrow> list_all is_read t"
proof (induction xs arbitrary: w ps w' t)
  case Nil
  then show ?case by simp
next
  case (Cons x xs)
  obtain p1 w1 t1 where h: "f x w = (p1, w1, t1)"
    by (cases "f x w") auto
  obtain ps2 w2 t2 where tl: "run_all f xs w1 = (ps2, w2, t2)"
    by (cases "run_all f xs w1") auto
  from Cons.prems h tl have "t = t1 @ t2" by simp
  with f[OF h] Cons.IH[OF tl] show ?case by simp
qed

lemma promise_all_reads:
  assumes f: "\<And>x w p w' t. f x w = (p, w', t) \<Longrightarrow> list_all is_read t"
    and p: "promise_all f xs w = (q, w', t)"
  shows "list_all is_read t"
proof -
  obtain ps w0 t0 where r: "run_all f xs w = (ps, w0, t0)"
    by (cases "run_all f xs w") auto
  from p r have "t = t0"
    by (simp add: promise_all_def split: option.splits prod.splits)
  with run_all_reads[of f, OF f r] show ?thesis by simp
qed

lemma attachment_part_reads:
  "attachment_part env m f w = (p, w', t) \<Longrightarrow> list_all is_read t"
  by (auto simp: attachment_part_def split: if_splits prod.splits sum.splits)

lemma buildParts_reads:
  assumes "buildPartsFromDiscordMessage env m prefix w = (p, w', t)"
  shows "list_all is_read t"
proof -
  obtain r0 n0 w0 t0 where
    q: "promise_all (attachment_part env m) (take 10 (attachments m)) w = ((r0, n0), w0, t0)"
    by (cases "promise_all (attachment_part env m) (take 10 (attachments m)) w") auto
  have "list_all is_read t0"
    by (rule promise_all_reads[OF _ q]) (rule attachment_part_reads)
  moreover from assms q have "t = t0"
    by (cases r0) (auto simp: buildPartsFromDiscordMessage_def)
  ultimately show ?thesis by simp
qed

lemma build_turn_reads:
  assumes "build_turn env me prefix m w = (p, w', t)"
  shows "list_all is_read t"
proof (cases "author_id m = me")
  case True
  with assms show ?thesis by (auto simp: build_turn_def)
next
  case False
  obtain r0 n0 w0 t0 where q: "buildPartsFromDiscordMessage env m prefix w = ((r0, n0), w0, t0)"
    by (cases "buildPartsFromDiscordMessage env m prefix w") auto
  from assms False q have "t = t0"
    by (cases r0) (auto simp: build_turn_def)
  with buildParts_reads[OF q] show ?thesis by simp
qed

lemma build_input_reads:
  assumes "build_input env me prefix history w = (r, w', t)"
  shows "list_all is_read t"
proof -
  obtain r0 n0 w0 t0 where
    q: "promise_all (build_turn env me prefix) history w = ((r0, n0), w0, t0)"
    by (cases "promise_all (build_turn env me prefix) history w") auto
  have "list_all is_read t0"
    by (rule promise_all_reads[OF _ q]) (rule build_turn_reads)
  moreover from assms q have "t = t0"
    by (simp add: build_input_def)
  ultimately show ?thesis by simp
qed

lemma tool_fetch_reads:
  "tool_fetch env history item w = (p, w', t) \<Longrightarrow> list_all is_read t"
  by (auto simp: tool_fetch_def Let_def split: output_item.splits if_splits prod.splits sum.splits)

lemma process_tool_calls_reads:
  assumes "process_tool_calls env history items w = (r, w', t)"
  shows "list_all is_read t"
proof -
  obtain ps w0 t0 where q: "run_all (tool_fetch env history) items w = (ps, w0, t0)"
    by (cases "run_all (tool_fetch env history) items w") auto
  have "list_all is_read t0"
    by (rule run_all_reads[OF _ q]) (rule tool_fetch_reads)
  moreover from assms q have "t = t0"
    by (auto simp: process_tool_calls_def split: option.splits prod.splits)
  ultimately show ?thesis by simp
qed

lemma addressed_reads:
  "addressed env message me prefix w = (r, w', t) \<Longrightarrow> list_all is_read t"
  by (auto simp: addressed_def split: if_splits prod.splits sum.splits option.splits)

lemma dispatch_sent: "list_all is_sent (dispatch_from s i)"
proof (induction s i rule: dispatch_from.induct)
  case (1 s i)
  show ?case
  proof (cases "i < length s")
    case True
    with 1 show ?thesis by (subst dispatch_from.simps) simp
  next
    case False
    then show ?thesis by (subst dispatch_from.simps) simp
  qed
qed

text \<open>
  The calls that \<open>send_each\<close> makes are the first of the calls it is given, and all of
  them when none is rejected.
\<close>

lemma send_each_trace:
  "send_each env as w = (r, w', t) \<Longrightarrow>
   (\<exists>n. t = take n as) \<and> (\<forall>u. r = Inr u \<longrightarrow> t = as)"
proof (induction as arbitrary: w r w' t)
  case Nil
  then show ?case by simp
next
  case (Cons a as)
  obtain ra wa where p: "perform env a w = (ra, wa)"
    by (cases "perform env a w") auto
  show ?case
  proof (cases ra)
    case (Inl e)
    with Cons.prems p have "t = take 1 (a # as)" "r = Inl e" by simp_all
    then show ?thesis by blast
  next
    case (Inr u)
    obtain r2 w2 t2 where s: "send_each env as wa = (r2, w2, t2)"
      by (cases "send_each env as wa") auto
    from Cons.prems p Inr s have t: "t = a # t2" and r: "r = r2" by simp_all
    from Cons.IH[OF s] obtain n where n: "t2 = take n as" and all: "\<forall>u. r2 = Inr u \<longrightarrow> t2 = as"
      by blast
    from t n have "t = take (Suc n) (a # as)" by simp
    with t r all show ?thesis by blast
  qed
qed

lemma send_each_quiet:
  assumes "send_each env as w = (r, w', t)" and "list_all is_sent as"
  shows "create_calls t = [] \<and> parse_calls t = []"
proof -
  from send_each_trace[OF assms(1)] obtain n where "t = take n as" by blast
  with assms(2) have "list_all is_sent t"
    by (auto simp: list_all_iff dest: in_set_takeD)
  then show ?thesis by (rule sent_quiet)
qed

lemma send_each_reply:
  "send_each env [Reply c] w = (case message_reply env c w of (r, w') \<Rightarrow> (r, w', [Reply c]))"
  by (auto split: prod.splits sum.splits)

text \<open>What one attempt does.\<close>

lemma attempt_body_trace:
  assumes "attempt_body env message me prefix sel attempt history w = (r, w', t)"
  shows "parse_calls t = [] \<and>
         (create_calls t = [] \<or>
          (\<exists>input. create_calls t = [(attempt, create_req_of message sel attempt input)])) \<and>
         (\<forall>h. r = Inr (Some h) \<longrightarrow>
            (\<exists>input. create_calls t = [(attempt, create_req_of message sel attempt input)]))"
proof -
  obtain r1 w1 t1 where b: "build_input env me prefix history w = (r1, w1, t1)"
    by (cases "build_input env me prefix history w") auto
  note q1 = reads_quiet[OF build_input_reads[OF b]]
  show ?thesis
  proof (cases r1)
    case (Inl e)
    with assms b q1 show ?thesis by (auto simp: attempt_body_def)
  next
    case (Inr input)
    define req where "req = create_req_of message sel attempt input"
    obtain resp err w2 where c: "responses_create env req w1 = ((resp, err), w2)"
      by (cases "responses_create env req w1") auto
    show ?thesis
    proof (cases err)
      case (Some e)
      obtain r3 w3 t3 where s: "send_each env [Reply e] w2 = (r3, w3, t3)"
        by (cases "send_each env [Reply e] w2") auto
      have q3: "create_calls t3 = [] \<and> parse_calls t3 = []"
        by (rule send_each_quiet[OF s]) simp
      from assms b Inr c q1 Some s q3 show ?thesis
        by (cases resp; cases r3)
          (auto simp: attempt_body_def req_def Let_def create_calls_append parse_calls_append
             simp del: send_each.simps)
    next
      case None
      note noerr = this
      show ?thesis
      proof (cases resp)
        case None
        with assms b Inr c q1 noerr show ?thesis
          by (auto simp: attempt_body_def req_def Let_def create_calls_append parse_calls_append)
      next
        case (Some response)
        show ?thesis
        proof (cases "list_ex is_get_messages (output_items response)")
          case False
          obtain r3 w3 t3 where
            s: "send_each env (dispatch_from (output_text response) 0) w2 = (r3, w3, t3)"
            by (cases "send_each env (dispatch_from (output_text response) 0) w2") auto
          have q3: "create_calls t3 = [] \<and> parse_calls t3 = []"
            by (rule send_each_quiet[OF s]) (rule dispatch_sent)
          from assms b Inr c q1 noerr Some False s q3 show ?thesis
            by (cases r3)
              (auto simp: attempt_body_def req_def Let_def create_calls_append parse_calls_append)
        next
          case True
          obtain r3 w3 t3 where p: "process_tool_calls env history (output_items response) w2 = (r3, w3, t3)"
            by (cases "process_tool_calls env history (output_items response) w2") auto
          note q3 = reads_quiet[OF process_tool_calls_reads[OF p]]
          from assms b Inr c q1 noerr Some True p q3 show ?thesis
            by (cases r3) (auto simp: attempt_body_def req_def Let_def create_calls_append parse_calls_append)
        qed
      qed
    qed
  qed
qed

text \<open>What the loop does, from a value of \<open>attempt\<close> on.\<close>

lemma attempts_trace:
  "attempts env message me prefix sel attempt history w = (r, w', t) \<Longrightarrow>
   parse_calls t = [] \<and>
   (\<exists>n. map fst (create_calls t) = [attempt..<attempt + n] \<and> (n = 0 \<or> attempt + n \<le> 3)) \<and>
   (\<forall>c \<in> set (create_calls t). \<exists>input. snd c = create_req_of message sel (fst c) input)"
proof (induction env message me prefix sel attempt history w arbitrary: r w' t
    rule: attempts.induct)
  case (1 env message me prefix sel attempt history w)
  show ?case
  proof (cases "attempt \<le> 2")
    case False
    with "1.prems" have "t = []"
      by (subst (asm) attempts.simps) simp
    moreover have "\<exists>n. [] = [attempt..<attempt + n] \<and> (n = 0 \<or> attempt + n \<le> 3)"
      by (rule exI[of _ 0]) simp
    ultimately show ?thesis by simp
  next
    case True
    obtain rb wb tb where
      b: "attempt_body env message me prefix sel attempt history w = (rb, wb, tb)"
      by (cases "attempt_body env message me prefix sel attempt history w") auto
    note tr = attempt_body_trace[OF b]
    from tr have one: "create_calls tb = [] \<or>
        (\<exists>input. create_calls tb = [(attempt, create_req_of message sel attempt input)])"
      by blast
    have stop: ?thesis if eq: "t = tb"
    proof -
      from one show ?thesis
      proof
        assume "create_calls tb = []"
        moreover have "\<exists>n. [] = [attempt..<attempt + n] \<and> (n = 0 \<or> attempt + n \<le> 3)"
          by (rule exI[of _ 0]) simp
        ultimately show ?thesis using tr eq by simp
      next
        assume "\<exists>input. create_calls tb = [(attempt, create_req_of message sel attempt input)]"
        then obtain input where
          c: "create_calls tb = [(attempt, create_req_of message sel attempt input)]" ..
        have "map fst (create_calls t) = [attempt..<attempt + 1] \<and> (1 = (0::nat) \<or> attempt + 1 \<le> 3)"
          using c eq True by simp
        then have "\<exists>n. map fst (create_calls t) = [attempt..<attempt + n] \<and> (n = 0 \<or> attempt + n \<le> 3)"
          by blast
        with tr eq c show ?thesis by auto
      qed
    qed
    show ?thesis
    proof (cases rb)
      case (Inl e)
      with "1.prems" True b have "t = tb"
        by (subst (asm) attempts.simps) simp
      then show ?thesis by (rule stop)
    next
      case (Inr ob)
      show ?thesis
      proof (cases ob)
        case None
        with "1.prems" True b Inr have "t = tb"
          by (subst (asm) attempts.simps) simp
        then show ?thesis by (rule stop)
      next
        case (Some h)
        obtain r2 w2 t2 where
          rec: "attempts env message me prefix sel (attempt + 1) h wb = (r2, w2, t2)"
          by (cases "attempts env message me prefix sel (attempt + 1) h wb") auto
        from "1.prems" True b Inr Some rec have t: "t = tb @ t2"
          by (subst (asm) attempts.simps) simp
        from tr Inr Some obtain input where
          c: "create_calls tb = [(attempt, create_req_of message sel attempt input)]"
          by auto
        from tr have p: "parse_calls tb = []"
          by auto
        note ih = "1.IH"[OF True _ Inr Some _ rec, of "(wb, tb)" tb]
        from ih b have ih': "parse_calls t2 = [] \<and>
           (\<exists>n. map fst (create_calls t2) = [attempt + 1..<attempt + 1 + n] \<and> (n = 0 \<or> attempt + 1 + n \<le> 3)) \<and>
           (\<forall>c \<in> set (create_calls t2). \<exists>input. snd c = create_req_of message sel (fst c) input)"
          by simp
        then obtain n where
          n: "map fst (create_calls t2) = [attempt + 1..<attempt + 1 + n]"
             "n = 0 \<or> attempt + 1 + n \<le> 3"
          by blast
        have "map fst (create_calls t) = [attempt..<attempt + Suc n]"
          using c n(1) t by (simp add: create_calls_append upt_conv_Cons)
        moreover have "Suc n = 0 \<or> attempt + Suc n \<le> 3"
          using n(2) True by auto
        ultimately have ex: "\<exists>n. map fst (create_calls t) = [attempt..<attempt + n] \<and> (n = 0 \<or> attempt + n \<le> 3)"
          by blast
        have "parse_calls t = []"
          using p ih' t by (simp add: parse_calls_append)
        moreover have "\<forall>c \<in> set (create_calls t). \<exists>input. snd c = create_req_of message sel (fst c) input"
          using c ih' t by (auto simp: create_calls_append)
        ultimately show ?thesis using ex by blast
      qed
    qed
  qed
qed

text \<open>The selection call and the body of the \<open>try\<close> block.\<close>

lemma select_call_trace:
  assumes "select_call env message prefix w = (p, w', t)"
  shows "create_calls t = [] \<and> filter is_sent t = [] \<and> length (parse_calls t) \<le> 1"
proof -
  obtain r0 n0 w0 t0 where
    b: "buildPartsFromDiscordMessage env message prefix w = ((r0, n0), w0, t0)"
    by (cases "buildPartsFromDiscordMessage env message prefix w") auto
  note q = reads_quiet[OF buildParts_reads[OF b]]
  show ?thesis
  proof (cases r0)
    case (Inl e)
    with assms b q show ?thesis by (auto simp: select_call_def)
  next
    case (Inr parts)
    with assms b q show ?thesis
      by (auto simp: select_call_def create_calls_append parse_calls_append split: prod.splits)
  qed
qed

lemma try_body_select_error:
  assumes "prompt_of message prefix \<noteq> []"
    and "select_call env message prefix w = ((rs, Some err), w1, t1)"
  shows "try_body env message me prefix w =
           (case message_reply env err w1 of (r, w2) \<Rightarrow> (r, w2, t1 @ [Reply err]))"
  using assms
  by (cases rs) (simp_all add: try_body_def send_each_reply split: prod.splits del: send_each.simps)

lemma try_body_trace:
  assumes "try_body env message me prefix w = (r, w', t)"
  shows "length (parse_calls t) \<le> 1 \<and>
         (\<exists>n\<le>3. map fst (create_calls t) = [0..<n]) \<and>
         (\<forall>c \<in> set (create_calls t).
            \<exists>sel input. snd c = create_req_of message sel (fst c) input)"
proof (cases "length (prompt_of message prefix) = 0")
  case True
  with assms have "t = []" by (simp add: try_body_def)
  moreover have "\<exists>n\<le>3. [] = [0..<n]" by (rule exI[of _ 0]) simp
  ultimately show ?thesis by simp
next
  case False
  obtain rs es w1 t1 where s: "select_call env message prefix w = ((rs, es), w1, t1)"
    by (cases "select_call env message prefix w") auto
  note q1 = select_call_trace[OF s]
  have zero: "\<exists>n\<le>3. [] = [0..<n]" by (rule exI[of _ 0]) simp
  show ?thesis
  proof (cases es)
    case (Some e)
    from False have ne: "prompt_of message prefix \<noteq> []" by simp
    from try_body_select_error[OF ne, of env w rs e w1 t1 me] s Some assms
    have "t = t1 @ [Reply e]" by (auto split: prod.splits)
    with q1 zero show ?thesis by (simp add: create_calls_append parse_calls_append)
  next
    case None
    note noerr = this
    show ?thesis
    proof (cases rs)
      case None
      with assms False s noerr have "t = t1" by (simp add: try_body_def)
      with q1 zero show ?thesis by simp
    next
      case (Some sel)
      obtain rf w2 where f: "messages_fetch env (seed_req message) w1 = (rf, w2)"
        by (cases "messages_fetch env (seed_req message) w1") auto
      show ?thesis
      proof (cases rf)
        case (Inl e)
        with assms False s noerr Some f have "t = t1 @ [MessagesFetch (seed_req message)]"
          by (simp add: try_body_def)
        with q1 zero show ?thesis by (simp add: create_calls_append parse_calls_append)
      next
        case (Inr fetched)
        obtain r3 w3 t3 where
          a: "attempts env message me prefix sel 0 (sort_by_timestamp (message # fetched)) w2
                = (r3, w3, t3)"
          by (cases "attempts env message me prefix sel 0 (sort_by_timestamp (message # fetched)) w2")
            auto
        from assms False s noerr Some f Inr a
        have t: "t = t1 @ [MessagesFetch (seed_req message)] @ t3"
          by (simp add: try_body_def)
        note tr = attempts_trace[OF a]
        from tr obtain n where n: "map fst (create_calls t3) = [0..<n]" "n = 0 \<or> n \<le> 3"
          by auto
        then have "n \<le> 3" by auto
        with n(1) have ex: "\<exists>n\<le>3. map fst (create_calls t3) = [0..<n]" by blast
        have cc: "create_calls t = create_calls t3" and pc: "parse_calls t = parse_calls t1"
          using t q1 tr by (simp_all add: create_calls_append parse_calls_append)
        have "\<forall>c \<in> set (create_calls t).
            \<exists>sel input. snd c = create_req_of message sel (fst c) input"
          using tr cc by metis
        then show ?thesis using ex cc pc q1 by simp
      qed
    qed
  qed
qed

text \<open>The handler, when the message is let in.\<close>

lemma MessageCreate_let_in:
  assumes "\<not> author_bot message" and "client_user_id env = Some me"
    and "addressed env message me (mention_prefix me) w = (Inr True, w1, t1)"
    and "try_body env message me (mention_prefix me) w1 = (rb, w2, t2)"
  shows "MessageCreate env message w =
           (case rb of
              Inl err \<Rightarrow>
                (case message_reply env (catch_text err) w2 of
                   (r, w3) \<Rightarrow> (r, w3, t1 @ t2 @ [Reply (catch_text err)]))
            | Inr u \<Rightarrow> (Inr (), w2, t1 @ t2))"
  using assms
  by (cases rb)
    (simp_all add: MessageCreate_def send_each_reply split: prod.splits del: send_each.simps)

lemma MessageCreate_not_let_in:
  assumes "MessageCreate env message w = (r, w', t)"
  shows "list_all is_read t \<or>
         (\<exists>me w1 t1 rb w2 t2.
            \<not> author_bot message \<and> client_user_id env = Some me \<and>
            addressed env message me (mention_prefix me) w = (Inr True, w1, t1) \<and>
            try_body env message me (mention_prefix me) w1 = (rb, w2, t2))"
proof (cases "author_bot message")
  case True
  with assms show ?thesis by (simp add: MessageCreate_def)
next
  case False
  note nb = this
  show ?thesis
  proof (cases "client_user_id env")
    case None
    with assms nb show ?thesis by (simp add: MessageCreate_def)
  next
    case (Some me)
    obtain ra w1 t1 where a: "addressed env message me (mention_prefix me) w = (ra, w1, t1)"
      by (cases "addressed env message me (mention_prefix me) w") auto
    note q = addressed_reads[OF a]
    show ?thesis
    proof (cases ra)
      case (Inl e)
      with assms nb Some a q show ?thesis by (simp add: MessageCreate_def)
    next
      case (Inr ok)
      show ?thesis
      proof (cases ok)
        case False
        with assms nb Some a q Inr show ?thesis by (simp add: MessageCreate_def)
      next
        case True
        obtain rb w2 t2 where b: "try_body env message me (mention_prefix me) w1 = (rb, w2, t2)"
          by (cases "try_body env message me (mention_prefix me) w1") auto
        from a Inr True have a': "addressed env message me (mention_prefix me) w = (Inr True, w1, t1)"
          by simp
        from nb Some a' b show ?thesis by blast
      qed
    qed
  qed
qed

section \<open>The attempts\<close>

text \<open>
  C3. In every run of the handler the completion calls are made at the values 0, 1, 2 of
  the attempt counter, in this order and at most three of them, and the request of a call
  carries the declaration of \<open>get_messages\<close> when the counter is 0 or 1 and no tool at
  all when it is 2.
\<close>

theorem attempts_bounded_tool_withheld:
  assumes "MessageCreate env message w = (r, w', t)"
  shows "(\<exists>n\<le>3. map fst (create_calls t) = [0..<n]) \<and>
         (\<forall>c \<in> set (create_calls t).
            create_tools (snd c) = (if fst c < 2 then Some [get_messages_tool] else None))"
proof -
  have zero: "\<exists>n\<le>3. [] = [0..<n]" by (rule exI[of _ 0]) simp
  from MessageCreate_not_let_in[OF assms] show ?thesis
  proof
    assume "list_all is_read t"
    with reads_quiet[of t] zero show ?thesis by simp
  next
    assume "\<exists>me w1 t1 rb w2 t2.
            \<not> author_bot message \<and> client_user_id env = Some me \<and>
            addressed env message me (mention_prefix me) w = (Inr True, w1, t1) \<and>
            try_body env message me (mention_prefix me) w1 = (rb, w2, t2)"
    then obtain me w1 t1 rb w2 t2 where
      nb: "\<not> author_bot message" and me: "client_user_id env = Some me" and
      a: "addressed env message me (mention_prefix me) w = (Inr True, w1, t1)" and
      b: "try_body env message me (mention_prefix me) w1 = (rb, w2, t2)"
      by blast
    from MessageCreate_let_in[OF nb me a b] assms
    have "create_calls t = create_calls (t1 @ t2)"
      by (cases rb) (auto simp: create_calls_append split: prod.splits)
    then have "create_calls t = create_calls t2"
      using reads_quiet[OF addressed_reads[OF a]] by (simp add: create_calls_append)
    with try_body_trace[OF b] show ?thesis
      by (auto simp: create_req_of_def)
  qed
qed

theorem attempts_bounded_tool_withheld_witness:
  "map fst (create_calls (snd (snd (MessageCreate env_ask trigger ())))) = [0, 1, 2] \<and>
   map (\<lambda>c. create_tools (snd c)) (create_calls (snd (snd (MessageCreate env_ask trigger ()))))
     = [Some [get_messages_tool], Some [get_messages_tool], None]"
proof -
  have e: "map fst (create_calls (snd (snd (MessageCreate env_ask trigger ())))) = [0, 1, 2]"
    by (simp add: handler_defs example_defs)
  have m: "MessageCreate env_ask trigger () =
      (fst (MessageCreate env_ask trigger ()), fst (snd (MessageCreate env_ask trigger ())),
       snd (snd (MessageCreate env_ask trigger ())))"
    by (simp only: prod.collapse)
  from attempts_bounded_tool_withheld[OF m]
  have "\<forall>c \<in> set (create_calls (snd (snd (MessageCreate env_ask trigger ())))).
          create_tools (snd c) = (if fst c < 2 then Some [get_messages_tool] else None)"
    by (rule conjunct2)
  then have "map (\<lambda>c. create_tools (snd c)) (create_calls (snd (snd (MessageCreate env_ask trigger ()))))
     = map (\<lambda>a. if a < 2 then Some [get_messages_tool] else None)
         (map fst (create_calls (snd (snd (MessageCreate env_ask trigger ())))))"
    by (simp add: comp_def)
  also have "\<dots> = [Some [get_messages_tool], Some [get_messages_tool], None]"
    by (simp only: e) simp
  finally show ?thesis using e by simp
qed

section \<open>The text of a message\<close>

lemma startsWith_split: "startsWith s p \<Longrightarrow> s = p @ drop (length p) s"
  unfolding startsWith_def by (metis append_take_drop_id)

lemma trimStart_split:
  "\<exists>ws. s = ws @ trimStart s \<and> list_all is_whitespace ws"
proof (intro exI conjI)
  show "s = takeWhile is_whitespace s @ trimStart s"
    by (simp add: trimStart_def)
  show "list_all is_whitespace (takeWhile is_whitespace s)"
    by (simp add: list_all_iff) (meson set_takeWhileD)
qed

lemma trimStart_hd: "trimStart s = [] \<or> \<not> is_whitespace (hd (trimStart s))"
  unfolding trimStart_def by (metis hd_dropWhile)

text \<open>
  C8. \<open>buildTextFromDiscordMessage\<close> puts the content of a message that does not start
  with the prefix into the text as it is. Of a content that starts with the prefix it
  removes that leading prefix and the whitespace that follows it, and nothing else: the
  content is the prefix, then whitespace, then the body that goes into the text, and the
  body does not start with whitespace. An occurrence of the prefix further on is part of
  the body in both cases.
\<close>

theorem buildText_strips_leading_prefix_only:
  "(\<not> startsWith (content m) prefix \<longrightarrow>
      buildTextFromDiscordMessage m prefix =
        str ''from: '' @ displayName m @ str ''\<newline>'' @
        str ''time: '' @ createdAt_iso m @ str ''\<newline>'' @ content m) \<and>
   (startsWith (content m) prefix \<longrightarrow>
      (\<exists>ws body.
         content m = prefix @ ws @ body \<and> list_all is_whitespace ws \<and>
         (body = [] \<or> \<not> is_whitespace (hd body)) \<and>
         buildTextFromDiscordMessage m prefix =
           str ''from: '' @ displayName m @ str ''\<newline>'' @
           str ''time: '' @ createdAt_iso m @ str ''\<newline>'' @ body))"
proof (intro conjI impI)
  assume "\<not> startsWith (content m) prefix"
  then show "buildTextFromDiscordMessage m prefix =
        str ''from: '' @ displayName m @ str ''\<newline>'' @
        str ''time: '' @ createdAt_iso m @ str ''\<newline>'' @ content m"
    by (simp add: buildTextFromDiscordMessage_def)
next
  assume sw: "startsWith (content m) prefix"
  define rest where "rest = drop (length prefix) (content m)"
  from startsWith_split[OF sw] have c: "content m = prefix @ rest"
    by (simp add: rest_def)
  from trimStart_split[of rest] obtain ws where
    ws: "rest = ws @ trimStart rest" "list_all is_whitespace ws"
    by blast
  have "content m = prefix @ ws @ trimStart rest"
    using c ws(1) by simp
  moreover have "buildTextFromDiscordMessage m prefix =
           str ''from: '' @ displayName m @ str ''\<newline>'' @
           str ''time: '' @ createdAt_iso m @ str ''\<newline>'' @ trimStart rest"
    using sw by (simp add: buildTextFromDiscordMessage_def slice_from_def rest_def)
  ultimately show "\<exists>ws body.
         content m = prefix @ ws @ body \<and> list_all is_whitespace ws \<and>
         (body = [] \<or> \<not> is_whitespace (hd body)) \<and>
         buildTextFromDiscordMessage m prefix =
           str ''from: '' @ displayName m @ str ''\<newline>'' @
           str ''time: '' @ createdAt_iso m @ str ''\<newline>'' @ body"
    using ws(2) trimStart_hd[of rest] by blast
qed

theorem buildText_strips_leading_prefix_only_witness:
  "\<not> startsWith (content quoting) (mention_prefix (str ''1'')) \<and>
   buildTextFromDiscordMessage quoting (mention_prefix (str ''1'')) =
     str ''from: v\<newline>time: T\<newline>ask <@1> about it'' \<and>
   startsWith (content trigger) (mention_prefix (str ''1'')) \<and>
   buildTextFromDiscordMessage trigger (mention_prefix (str ''1'')) =
     str ''from: u\<newline>time: T\<newline>hi'' \<and>
   (\<exists>ws body.
      content trigger = mention_prefix (str ''1'') @ ws @ body \<and> list_all is_whitespace ws \<and>
      (body = [] \<or> \<not> is_whitespace (hd body)) \<and>
      buildTextFromDiscordMessage trigger (mention_prefix (str ''1'')) =
        str ''from: '' @ displayName trigger @ str ''\<newline>'' @
        str ''time: '' @ createdAt_iso trigger @ str ''\<newline>'' @ body)"
proof -
  have n: "\<not> startsWith (content quoting) (mention_prefix (str ''1''))"
    by (simp add: startsWith_def mention_prefix_def str_def example_defs)
  have y: "startsWith (content trigger) (mention_prefix (str ''1''))"
    by (simp add: startsWith_def mention_prefix_def str_def example_defs)
  from buildText_strips_leading_prefix_only[of quoting "mention_prefix (str ''1'')"] n
  have "buildTextFromDiscordMessage quoting (mention_prefix (str ''1'')) =
        str ''from: '' @ displayName quoting @ str ''\<newline>'' @
        str ''time: '' @ createdAt_iso quoting @ str ''\<newline>'' @ content quoting"
    by blast
  then have q: "buildTextFromDiscordMessage quoting (mention_prefix (str ''1'')) =
     str ''from: v\<newline>time: T\<newline>ask <@1> about it''"
    by (simp add: str_def example_defs)
  have t: "buildTextFromDiscordMessage trigger (mention_prefix (str ''1'')) =
     str ''from: u\<newline>time: T\<newline>hi''"
    by (simp add: buildTextFromDiscordMessage_def startsWith_def slice_from_def trimStart_def
        is_whitespace_def mention_prefix_def str_def example_defs)
  from buildText_strips_leading_prefix_only[of trigger "mention_prefix (str ''1'')"] y
  have e: "\<exists>ws body.
      content trigger = mention_prefix (str ''1'') @ ws @ body \<and> list_all is_whitespace ws \<and>
      (body = [] \<or> \<not> is_whitespace (hd body)) \<and>
      buildTextFromDiscordMessage trigger (mention_prefix (str ''1'')) =
        str ''from: '' @ displayName trigger @ str ''\<newline>'' @
        str ''time: '' @ createdAt_iso trigger @ str ''\<newline>'' @ body"
    by blast
  from n q y t e show ?thesis by blast
qed

section \<open>The answer of an attempt\<close>

text \<open>
  C10. When the completion call of an attempt returns a response without a call of
  \<open>get_messages\<close> and its text is empty, the loop that sends the answer does not run:
  the attempt ends the handler, and neither the attempt nor the building of its input
  sends a reply or a message.
\<close>

theorem empty_answer_sends_nothing:
  assumes "build_input env me prefix history w = (Inr input, w1, t1)"
    and "responses_create env (create_req_of message sel attempt input) w1
           = ((Some response, None), w2)"
    and "\<not> list_ex is_get_messages (output_items response)"
    and "output_text response = []"
  shows "dispatch_from (output_text response) 0 = [] \<and>
         attempt_body env message me prefix sel attempt history w =
           (Inr None, w2,
            t1 @ [ResponsesCreate attempt (create_req_of message sel attempt input)]) \<and>
         filter is_sent
           (t1 @ [ResponsesCreate attempt (create_req_of message sel attempt input)]) = []"
proof -
  have d: "dispatch_from (output_text response) 0 = []"
    using assms(4) by (subst dispatch_from.simps) simp
  have "attempt_body env message me prefix sel attempt history w =
           (Inr None, w2,
            t1 @ [ResponsesCreate attempt (create_req_of message sel attempt input)])"
    using assms(1-3) d by (simp add: attempt_body_def Let_def)
  moreover have "filter is_sent t1 = []"
    using reads_quiet[OF build_input_reads[OF assms(1)]] by simp
  ultimately show ?thesis using d by simp
qed

theorem empty_answer_sends_nothing_witness:
  "attempt_body env_empty_answer trigger (str ''1'') (mention_prefix (str ''1''))
     \<lparr>output_parsed_model = Some (str ''gpt-5-mini'')\<rparr> 0 [trigger] () =
     (Inr None, (),
      [ResponsesCreate 0
         (create_req_of trigger \<lparr>output_parsed_model = Some (str ''gpt-5-mini'')\<rparr> 0
            [\<lparr>turn_role = User,
              turn_content =
                Parts [InputText (buildTextFromDiscordMessage trigger (mention_prefix (str ''1'')))]\<rparr>])]) \<and>
   filter is_sent (snd (snd (MessageCreate env_empty_answer trigger ()))) = []"
proof -
  let ?sel = "\<lparr>output_parsed_model = Some (str ''gpt-5-mini'')\<rparr>"
  let ?input = "[\<lparr>turn_role = User,
              turn_content =
                Parts [InputText (buildTextFromDiscordMessage trigger (mention_prefix (str ''1'')))]\<rparr>]"
  let ?response = "\<lparr>output_items = [OtherItem], output_text = []\<rparr>"
  have b: "build_input env_empty_answer (str ''1'') (mention_prefix (str ''1'')) [trigger] ()
      = (Inr ?input, (), [])"
    by (simp add: build_input_def build_turn_def buildPartsFromDiscordMessage_def promise_all_def str_def
        example_defs)
  have c: "responses_create env_empty_answer (create_req_of trigger ?sel 0 ?input) ()
      = ((Some ?response, None), ())"
    by (simp add: example_defs)
  have g: "\<not> list_ex is_get_messages (output_items ?response)"
    by (simp add: is_get_messages_def)
  have e: "output_text ?response = []"
    by simp
  from empty_answer_sends_nothing[OF b c g e]
  have a: "attempt_body env_empty_answer trigger (str ''1'') (mention_prefix (str ''1''))
     ?sel 0 [trigger] () =
     (Inr None, (), [ResponsesCreate 0 (create_req_of trigger ?sel 0 ?input)])"
    by simp
  have "filter is_sent (snd (snd (MessageCreate env_empty_answer trigger ()))) = []"
    by (simp add: handler_defs example_defs)
  with a show ?thesis by simp
qed

section \<open>The expansion of the history\<close>



lemma count_list_insort_key:
  "count_list (insort_key f a xs) x = count_list (a # xs) x"
  by (induction xs) auto

lemma count_list_sort_key: "count_list (sort_key f xs) x = count_list xs x"
  by (induction xs) (simp_all add: count_list_insort_key)

lemma count_list_append: "count_list (xs @ ys) x = count_list xs x + count_list ys x"
  by (induction xs) simp_all

text \<open>
  C2, as the program has it. Every merge leaves the history sorted ascending by the
  creation timestamp, and holding each message as often as the fetched batch and the
  history before the merge hold it together: no message is dropped, and none is removed
  as a duplicate.
\<close>

theorem merge_sorted_keeps_all:
  "sorted (map createdTimestamp (merge_history fetched history)) \<and>
   count_list (merge_history fetched history) m = count_list fetched m + count_list history m \<and>
   length (merge_history fetched history) = length fetched + length history"
  by (simp add: merge_history_def sort_by_timestamp_def count_list_sort_key count_list_append)

text \<open>
  The claim as it is written fails: a response with two calls of \<open>get_messages\<close> fetches
  the same batch twice, both fetches anchored at the history the processing started
  with, and the message fetched is in the history twice.
\<close>

theorem merge_keeps_duplicates_counterexample:
  "fst (process_tool_calls env_ask [trigger]
          [FunctionCall (str ''get_messages'') (limit_arguments ''1''),
           FunctionCall (str ''get_messages'') (limit_arguments ''1'')] ()) =
     Inr [example_message ''70'' ''u'' ''g'' 70, example_message ''70'' ''u'' ''g'' 70, trigger] \<and>
   \<not> distinct (map msg_id
        [example_message ''70'' ''u'' ''g'' 70, example_message ''70'' ''u'' ''g'' 70, trigger])"
  by (simp add: handler_defs example_defs)

text \<open>
  The anchor of a fetch is the id of the last message of the history, which is sorted
  ascending: a message with the greatest timestamp, not the earliest one.
\<close>

lemma last_id_latest:
  assumes "history \<noteq> []"
  shows "last_id (sort_by_timestamp history) = Some (msg_id (last (sort_by_timestamp history))) \<and>
         last (sort_by_timestamp history) \<in> set history \<and>
         (\<forall>m \<in> set history.
            createdTimestamp m \<le> createdTimestamp (last (sort_by_timestamp history)))"
proof -
  let ?s = "sort_key createdTimestamp history"
  have ne: "?s \<noteq> []" using assms by (metis length_0_conv length_sort)
  have srt: "sorted (map createdTimestamp ?s)" by simp
  have mem: "last ?s \<in> set history" using ne by (metis last_in_set set_sort)
  have "\<forall>m \<in> set ?s. createdTimestamp m \<le> createdTimestamp (last ?s)"
  proof
    fix m assume "m \<in> set ?s"
    then obtain i where i: "i < length ?s" "?s ! i = m" by (metis in_set_conv_nth)
    have "map createdTimestamp ?s ! i \<le> map createdTimestamp ?s ! (length ?s - 1)"
      using i(1) srt by (intro sorted_nth_mono) auto
    with i ne show "createdTimestamp m \<le> createdTimestamp (last ?s)"
      by (simp add: last_conv_nth)
  qed
  with ne mem show ?thesis by (simp add: last_id_def sort_by_timestamp_def)
qed

text \<open>
  C1 at a concrete run. The channel holds the messages 10 to 80 and the message 80
  mentions the bot. The history starts with the messages 30 to 80, so the earliest
  message known is 30; the service asks for one more message on both attempts that
  offer the tool. Both fetches are anchored at 80, the latest message, and bring the
  message 70, which the history has already; the message 20, the one before the
  earliest, is never fetched.
\<close>

theorem history_fetch_anchored_at_latest:
  "map msg_id (sort_by_timestamp (trigger # channel_fetch example_channel (seed_req trigger))) =
     [str ''30'', str ''40'', str ''50'', str ''60'', str ''70'', str ''80''] \<and>
   fetch_calls (snd (snd (MessageCreate env_ask trigger ()))) =
     [\<lparr>fetch_limit = Some (JNum 5), fetch_before = Some (str ''80'')\<rparr>,
      \<lparr>fetch_limit = Some (JNum 1), fetch_before = Some (str ''80'')\<rparr>,
      \<lparr>fetch_limit = Some (JNum 1), fetch_before = Some (str ''80'')\<rparr>] \<and>
   map msg_id (channel_fetch example_channel
      \<lparr>fetch_limit = Some (JNum 1), fetch_before = Some (str ''80'')\<rparr>) = [str ''70''] \<and>
   map msg_id (channel_fetch example_channel
      \<lparr>fetch_limit = Some (JNum 1), fetch_before = Some (str ''30'')\<rparr>) = [str ''20'']"
  by (simp add: handler_defs example_defs)

section \<open>The selection of the model\<close>

lemma try_body_selected:
  assumes "prompt_of message prefix \<noteq> []"
    and "select_call env message prefix w = ((Some sel, None), w1, t1)"
    and "try_body env message me prefix w = (r, w', t)"
  shows "\<forall>c \<in> set (create_calls t). \<exists>input. snd c = create_req_of message sel (fst c) input"
proof -
  note q1 = select_call_trace[OF assms(2)]
  obtain rf w2 where f: "messages_fetch env (seed_req message) w1 = (rf, w2)"
    by (cases "messages_fetch env (seed_req message) w1") auto
  show ?thesis
  proof (cases rf)
    case (Inl e)
    with assms f have "t = t1 @ [MessagesFetch (seed_req message)]"
      by (simp add: try_body_def)
    with q1 show ?thesis by (simp add: create_calls_append)
  next
    case (Inr fetched)
    obtain r3 w3 t3 where
      a: "attempts env message me prefix sel 0 (sort_by_timestamp (message # fetched)) w2
            = (r3, w3, t3)"
      by (cases "attempts env message me prefix sel 0 (sort_by_timestamp (message # fetched)) w2")
        auto
    from assms f Inr a have "t = t1 @ [MessagesFetch (seed_req message)] @ t3"
      by (simp add: try_body_def)
    with q1 have "create_calls t = create_calls t3"
      by (simp add: create_calls_append)
    with attempts_trace[OF a] show ?thesis by simp
  qed
qed

text \<open>
  C4, as the program has it. When the guarded selection call returns an error, the
  next thing the handler does is to reply with the message of that error, and nothing
  was sent before; when that reply is accepted the handler ends with it. In any case it
  has made at most one selection call and makes no completion call. When the call
  returns a response and no error, the handler goes on, and every completion call it
  makes names the model of the parsed output, or the first model of the list,
  \<open>gpt-5-nano\<close>, when the response has no parsed output.
\<close>

theorem selection_error_aborts_missing_output_defaults:
  assumes "\<not> author_bot message" and "client_user_id env = Some me"
    and "addressed env message me (mention_prefix me) w = (Inr True, w1, t1)"
    and "prompt_of message (mention_prefix me) \<noteq> []"
    and "select_call env message (mention_prefix me) w1 = ((rs, es), w2, t2)"
  shows "(\<forall>err. es = Some err \<longrightarrow>
            (\<exists>rest. snd (snd (MessageCreate env message w)) = t1 @ t2 @ Reply err # rest) \<and>
            (\<forall>w3. message_reply env err w2 = (Inr (), w3) \<longrightarrow>
               MessageCreate env message w = (Inr (), w3, t1 @ t2 @ [Reply err])) \<and>
            create_calls (snd (snd (MessageCreate env message w))) = [] \<and>
            length (parse_calls (snd (snd (MessageCreate env message w)))) \<le> 1 \<and>
            filter is_sent (t1 @ t2 @ [Reply err]) = [Reply err]) \<and>
         (\<forall>sel. es = None \<and> rs = Some sel \<longrightarrow>
            (\<forall>c \<in> set (create_calls (snd (snd (MessageCreate env message w)))).
               create_model (snd c) =
                 (case output_parsed_model sel of
                    Some m \<Rightarrow> m
                  | None \<Rightarrow> str ''gpt-5-nano'')))"
proof (intro conjI allI impI)
  fix err assume e: "es = Some err"
  note q1 = reads_quiet[OF addressed_reads[OF assms(3)]]
  note q2 = select_call_trace[OF assms(5)]
  obtain rr w3 where mr: "message_reply env err w2 = (rr, w3)"
    by (cases "message_reply env err w2") auto
  from try_body_select_error[OF assms(4), of env w1 rs err w2 t2 me] assms(5) e mr
  have b: "try_body env message me (mention_prefix me) w1 = (rr, w3, t2 @ [Reply err])"
    by simp
  note m = MessageCreate_let_in[OF assms(1-3) b]
  have tr: "\<exists>rest. snd (snd (MessageCreate env message w)) = t1 @ t2 @ Reply err # rest \<and>
              list_all is_sent rest"
  proof (cases rr)
    case (Inl x)
    with m have "snd (snd (MessageCreate env message w)) =
        t1 @ t2 @ Reply err # [Reply (catch_text x)]"
      by (simp split: prod.splits)
    then show ?thesis by simp
  next
    case (Inr u)
    with m have "snd (snd (MessageCreate env message w)) = t1 @ t2 @ Reply err # []"
      by simp
    then show ?thesis by simp
  qed
  then obtain rest where
    rest: "snd (snd (MessageCreate env message w)) = t1 @ t2 @ Reply err # rest"
      "list_all is_sent rest"
    by blast
  from rest(1)
  show "\<exists>rest. snd (snd (MessageCreate env message w)) = t1 @ t2 @ Reply err # rest"
    by blast
  show "MessageCreate env message w = (Inr (), w4, t1 @ t2 @ [Reply err])"
    if "message_reply env err w2 = (Inr (), w4)" for w4
    using m mr that by auto
  show "create_calls (snd (snd (MessageCreate env message w))) = []"
    using rest q1 q2 sent_quiet[OF rest(2)] by (simp add: create_calls_append)
  show "length (parse_calls (snd (snd (MessageCreate env message w)))) \<le> 1"
    using rest q1 q2 sent_quiet[OF rest(2)] by (simp add: parse_calls_append)
  show "filter is_sent (t1 @ t2 @ [Reply err]) = [Reply err]"
    using q1 q2 by simp
next
  fix sel
  assume s: "es = None \<and> rs = Some sel"
  obtain rb w3 t3 where b: "try_body env message me (mention_prefix me) w1 = (rb, w3, t3)"
    by (cases "try_body env message me (mention_prefix me) w1") auto
  from assms(5) s have sc: "select_call env message (mention_prefix me) w1 = ((Some sel, None), w2, t2)"
    by simp
  note tb = try_body_selected[OF assms(4) sc b]
  note q1 = reads_quiet[OF addressed_reads[OF assms(3)]]
  from MessageCreate_let_in[OF assms(1-3) b]
  have cc: "create_calls (snd (snd (MessageCreate env message w))) = create_calls t3"
    using q1 by (cases rb) (simp_all add: create_calls_append split: prod.splits)
  show "\<forall>c \<in> set (create_calls (snd (snd (MessageCreate env message w)))).
          create_model (snd c) =
            (case output_parsed_model sel of Some m \<Rightarrow> m | None \<Rightarrow> str ''gpt-5-nano'')"
  proof
    fix c assume "c \<in> set (create_calls (snd (snd (MessageCreate env message w))))"
    with cc tb obtain input where "snd c = create_req_of message sel (fst c) input"
      by auto
    then show "create_model (snd c) =
        (case output_parsed_model sel of Some m \<Rightarrow> m | None \<Rightarrow> str ''gpt-5-nano'')"
      by (simp add: create_req_of_def modelList_def split: option.splits)
  qed
qed

text \<open>
  The claim as it is written fails where the selection call returns a response without
  parsed output: the handler does not stop, it makes the completion call with the model
  \<open>gpt-5-nano\<close> and sends the answer.
\<close>

theorem missing_output_defaults_counterexample:
  "fst (select_call env_unparsed trigger (mention_prefix (str ''1'')) ()) =
     (Some \<lparr>output_parsed_model = None\<rparr>, None) \<and>
   map (\<lambda>c. create_model (snd c))
     (create_calls (snd (snd (MessageCreate env_unparsed trigger ())))) = [str ''gpt-5-nano''] \<and>
   filter is_sent (snd (snd (MessageCreate env_unparsed trigger ()))) = [Reply (str ''hello'')]"
  by (simp add: handler_defs example_defs modelList_def)

theorem selection_error_aborts_missing_output_defaults_witness:
  "MessageCreate env_select_error trigger () =
     (Inr (), (),
      [ResponsesParse
         (select_req [InputText (buildTextFromDiscordMessage trigger (mention_prefix (str ''1'')))]),
       Reply (str ''The model is overloaded.'')]) \<and>
   length (create_calls (snd (snd (MessageCreate env_unparsed trigger ())))) = 1 \<and>
   list_all (\<lambda>c. create_model (snd c) = str ''gpt-5-nano'')
     (create_calls (snd (snd (MessageCreate env_unparsed trigger ()))))"
proof -
  let ?p = "mention_prefix (str ''1'')"
  let ?req = "select_req [InputText (buildTextFromDiscordMessage trigger ?p)]"
  have nb: "\<not> author_bot trigger"
    by (simp add: example_defs)
  have pr: "prompt_of trigger ?p \<noteq> []"
    by (simp add: prompt_of_def startsWith_def slice_from_def mention_prefix_def str_def
        example_defs)
  have me1: "client_user_id env_select_error = Some (str ''1'')"
    by (simp add: example_defs)
  have ad1: "addressed env_select_error trigger (str ''1'') ?p () = (Inr True, (), [])"
    by (simp add: addressed_def startsWith_def mention_prefix_def str_def example_defs)
  have sc1: "select_call env_select_error trigger ?p () =
      ((None, Some (str ''The model is overloaded.'')), (), [ResponsesParse ?req])"
    by (simp add: select_call_def buildPartsFromDiscordMessage_def promise_all_def example_defs)
  have mr: "message_reply env_select_error (str ''The model is overloaded.'') () = (Inr (), ())"
    by (simp add: example_defs)
  from selection_error_aborts_missing_output_defaults[OF nb me1 ad1 pr sc1] mr
  have a: "MessageCreate env_select_error trigger () =
     (Inr (), (), [ResponsesParse ?req, Reply (str ''The model is overloaded.'')])"
    by simp
  have me2: "client_user_id env_unparsed = Some (str ''1'')"
    by (simp add: example_defs)
  have ad2: "addressed env_unparsed trigger (str ''1'') ?p () = (Inr True, (), [])"
    by (simp add: addressed_def startsWith_def mention_prefix_def str_def example_defs)
  have sc2: "select_call env_unparsed trigger ?p () =
      ((Some \<lparr>output_parsed_model = None\<rparr>, None), (), [ResponsesParse ?req])"
    by (simp add: select_call_def buildPartsFromDiscordMessage_def promise_all_def example_defs)
  from selection_error_aborts_missing_output_defaults[OF nb me2 ad2 pr sc2]
  have b: "list_all (\<lambda>c. create_model (snd c) = str ''gpt-5-nano'')
     (create_calls (snd (snd (MessageCreate env_unparsed trigger ()))))"
    by (simp add: list_all_iff)
  have "length (create_calls (snd (snd (MessageCreate env_unparsed trigger ())))) = 1"
    by (simp add: handler_defs example_defs)
  with a b show ?thesis by simp
qed

section \<open>Exceptions\<close>

text \<open>
  C5, as the program has it. An exception thrown in the \<open>try\<close> block is caught by the
  handler, once: after what the \<open>try\<close> block did, the handler makes the reply of the
  \<open>catch\<close> block and ends with the result of that reply. The text of the reply is the
  message of the exception when the exception is an instance of \<open>Error\<close>, and
  \<open>An unexpected error occurred.\<close> only when it is not.
\<close>

theorem exception_caught_reply_carries_its_message:
  assumes "\<not> author_bot message" and "client_user_id env = Some me"
    and "addressed env message me (mention_prefix me) w = (Inr True, w1, t1)"
    and "try_body env message me (mention_prefix me) w1 = (Inl err, w2, t2)"
  shows "(\<exists>r w3. message_reply env (catch_text err) w2 = (r, w3) \<and>
            MessageCreate env message w = (r, w3, t1 @ t2 @ [Reply (catch_text err)])) \<and>
         (\<forall>m. err = JsError m \<longrightarrow> catch_text err = m) \<and>
         (err = NonError \<longrightarrow> catch_text err = str ''An unexpected error occurred.'')"
proof -
  obtain r w3 where mr: "message_reply env (catch_text err) w2 = (r, w3)"
    by (cases "message_reply env (catch_text err) w2") auto
  from MessageCreate_let_in[OF assms] mr
  have "MessageCreate env message w = (r, w3, t1 @ t2 @ [Reply (catch_text err)])"
    by simp
  with mr show ?thesis by (simp add: catch_text_def)
qed

text \<open>
  The claim as it is written fails: the arguments of a tool call do not parse, the
  \<open>SyntaxError\<close> of \<open>JSON.parse\<close> is thrown in the \<open>try\<close> block, and the reply is the
  message of that error.
\<close>

theorem exception_message_leaks_counterexample:
  "fst (try_body env_bad_arguments trigger (str ''1'') (mention_prefix (str ''1'')) ()) =
     Inl (JsError (str ''JSON Parse error'')) \<and>
   filter is_sent (snd (snd (MessageCreate env_bad_arguments trigger ()))) =
     [Reply (str ''JSON Parse error'')]"
  by (simp add: handler_defs example_defs)

text \<open>
  Four runs. The arguments of the tool call do not parse. The gateway throws a value
  that is not an \<open>Error\<close>. The answer has two chunks and the second one is rejected,
  after the first was sent. Of two tool calls the first is rejected by the gateway and
  the arguments of the second do not parse: the failure to parse is thrown before the
  gateway answers, so it is the one that is caught.
\<close>

theorem exception_caught_reply_carries_its_message_witness:
  "MessageCreate env_bad_arguments trigger () =
     (Inr (), (),
      snd (snd (try_body env_bad_arguments trigger (str ''1'') (mention_prefix (str ''1'')) ()))
        @ [Reply (str ''JSON Parse error'')]) \<and>
   MessageCreate env_gateway_down trigger () =
     (Inr (), (),
      [ResponsesParse
         (select_req [InputText (buildTextFromDiscordMessage trigger (mention_prefix (str ''1'')))]),
       MessagesFetch (seed_req trigger),
       Reply (str ''An unexpected error occurred.'')]) \<and>
   filter is_sent (snd (snd (MessageCreate env_send_fails trigger ()))) =
     [Reply (replicate 2000 97), Send [97], Reply (str ''Missing Permissions'')] \<and>
   filter is_sent (snd (snd (MessageCreate env_race trigger ()))) =
     [Reply (str ''JSON Parse error'')]"
proof -
  let ?p = "mention_prefix (str ''1'')"
  let ?req = "select_req [InputText (buildTextFromDiscordMessage trigger ?p)]"
  have nb: "\<not> author_bot trigger"
    by (simp add: example_defs)
  have me1: "client_user_id env_bad_arguments = Some (str ''1'')"
    by (simp add: example_defs)
  have ad1: "addressed env_bad_arguments trigger (str ''1'') ?p () = (Inr True, (), [])"
    by (simp add: addressed_def startsWith_def mention_prefix_def str_def example_defs)
  have "fst (try_body env_bad_arguments trigger (str ''1'') ?p ()) =
      Inl (JsError (str ''JSON Parse error''))"
    by (simp add: handler_defs example_defs)
  then have tb1: "try_body env_bad_arguments trigger (str ''1'') ?p () =
      (Inl (JsError (str ''JSON Parse error'')), (),
       snd (snd (try_body env_bad_arguments trigger (str ''1'') ?p ())))"
    by (metis old.unit.exhaust prod.collapse)
  from exception_caught_reply_carries_its_message[OF nb me1 ad1 tb1]
  have a: "MessageCreate env_bad_arguments trigger () =
     (Inr (), (),
      snd (snd (try_body env_bad_arguments trigger (str ''1'') ?p ()))
        @ [Reply (str ''JSON Parse error'')])"
    by (auto simp: example_defs)
  have me2: "client_user_id env_gateway_down = Some (str ''1'')"
    by (simp add: example_defs)
  have ad2: "addressed env_gateway_down trigger (str ''1'') ?p () = (Inr True, (), [])"
    by (simp add: addressed_def startsWith_def mention_prefix_def str_def example_defs)
  have tb2: "try_body env_gateway_down trigger (str ''1'') ?p () =
      (Inl NonError, (), [ResponsesParse ?req, MessagesFetch (seed_req trigger)])"
    by (simp add: try_body_def prompt_of_def select_call_def buildPartsFromDiscordMessage_def
        promise_all_def startsWith_def slice_from_def mention_prefix_def str_def example_defs)
  from exception_caught_reply_carries_its_message[OF nb me2 ad2 tb2]
  have b: "MessageCreate env_gateway_down trigger () =
     (Inr (), (),
      [ResponsesParse ?req, MessagesFetch (seed_req trigger),
       Reply (str ''An unexpected error occurred.'')])"
    by (auto simp: example_defs)
  have c: "filter is_sent (snd (snd (MessageCreate env_send_fails trigger ()))) =
     [Reply (replicate 2000 97), Send [97], Reply (str ''Missing Permissions'')]"
    by (simp add: handler_defs example_defs)
  have d: "filter is_sent (snd (snd (MessageCreate env_race trigger ()))) =
     [Reply (str ''JSON Parse error'')]"
    by (simp add: handler_defs example_defs)
  from a b c d show ?thesis by simp
qed

section \<open>The prompt\<close>

text \<open>
  C6, as the program has it. The prompt of a message that is let in is its content
  without the leading prefix, when it starts with the prefix, and its content otherwise;
  whitespace is not trimmed. When the prompt has length 0 the handler ends at once: it
  makes no selection call and no completion call, sends no reply and no message, and
  throws nothing.
\<close>

theorem empty_prompt_ignored:
  assumes "\<not> author_bot message" and "client_user_id env = Some me"
    and "addressed env message me (mention_prefix me) w = (Inr True, w1, t1)"
  shows "prompt_of message (mention_prefix me) =
           (if startsWith (content message) (mention_prefix me)
            then drop (length (mention_prefix me)) (content message)
            else content message) \<and>
         (prompt_of message (mention_prefix me) = [] \<longrightarrow>
            MessageCreate env message w = (Inr (), w1, t1) \<and>
            filter is_sent t1 = [] \<and> create_calls t1 = [] \<and> parse_calls t1 = [])"
proof (intro conjI impI)
  show "prompt_of message (mention_prefix me) =
           (if startsWith (content message) (mention_prefix me)
            then drop (length (mention_prefix me)) (content message)
            else content message)"
    by (simp add: prompt_of_def slice_from_def)
next
  assume e: "prompt_of message (mention_prefix me) = []"
  then have b: "try_body env message me (mention_prefix me) w1 = (Inr (), w1, [])"
    by (simp add: try_body_def)
  from MessageCreate_let_in[OF assms b]
  show "MessageCreate env message w = (Inr (), w1, t1)" by simp
  from reads_quiet[OF addressed_reads[OF assms(3)]]
  show "filter is_sent t1 = []" "create_calls t1 = []" "parse_calls t1 = []"
    by simp_all
qed

text \<open>
  The claim as it is written fails: after the mention there is one space, the trimmed
  prompt is empty, and the message is answered.
\<close>

theorem blank_prompt_answered_counterexample:
  "prompt_of blank_mention (mention_prefix (str ''1'')) = str '' '' \<and>
   trimStart (prompt_of blank_mention (mention_prefix (str ''1''))) = [] \<and>
   filter is_sent (snd (snd (MessageCreate env_answer blank_mention ()))) =
     [Reply (str ''hello'')]"
  by (simp add: handler_defs example_defs trimStart_def is_whitespace_def)

theorem empty_prompt_ignored_witness:
  "prompt_of bare_mention (mention_prefix (str ''1'')) = [] \<and>
   MessageCreate env_answer bare_mention () = (Inr (), (), [])"
proof -
  let ?p = "mention_prefix (str ''1'')"
  have nb: "\<not> author_bot bare_mention"
    by (simp add: example_defs)
  have me: "client_user_id env_answer = Some (str ''1'')"
    by (simp add: example_defs)
  have ad: "addressed env_answer bare_mention (str ''1'') ?p () = (Inr True, (), [])"
    by (simp add: addressed_def startsWith_def mention_prefix_def str_def example_defs)
  have pr: "prompt_of bare_mention ?p = []"
    by (simp add: prompt_of_def startsWith_def slice_from_def mention_prefix_def str_def
        example_defs)
  from empty_prompt_ignored[OF nb me ad] pr
  have "MessageCreate env_answer bare_mention () = (Inr (), (), [])"
    by blast
  with pr show ?thesis by simp
qed


end
